theory Spec2Isabelle
  imports Complex_Main "HOL-Library.Word" "HOL-Library.Log_Nat"
begin

section \<open>Watermark node: data model\<close>

text \<open>
  The development embeds \<^verbatim>\<open>src/__init__.py\<close> (class \<^verbatim>\<open>WatermarkNode\<close>).
  Python integers are unbounded and are modelled by \<^typ>\<open>int\<close>; Python's \<^verbatim>\<open>//\<close>
  is floor division, as \<open>div\<close> on \<^typ>\<open>int\<close> is. Exceptions are values of the type
  \<open>exn\<close>, and a computation that may raise returns \<open>exn + 'a\<close> with \<open>Inl\<close> for the
  exception.
\<close>

datatype exn =
  KeyError | IndexError | ValueError | TypeError | ZeroDivisionError | OverflowError | OSError

text \<open>The nine anchor names offered by \<^verbatim>\<open>INPUT_TYPES\<close>, in the order of the source.\<close>

definition anchor_names :: "string list" where
  "anchor_names =
     [''top_left'', ''top_center'', ''top_right'',
      ''center_left'', ''center'', ''center_right'',
      ''bottom_left'', ''bottom_center'', ''bottom_right'']"

subsection \<open>Dictionaries\<close>

text \<open>
  A dictionary literal is an association list. \<^verbatim>\<open>d[k]\<close> raises \<^verbatim>\<open>KeyError\<close> on a
  missing key; \<^verbatim>\<open>d.get(k, default)\<close> returns the default instead.
\<close>

definition dict_getitem :: "('k \<times> 'v) list \<Rightarrow> 'k \<Rightarrow> exn + 'v" where
  "dict_getitem d k = (case map_of d k of None \<Rightarrow> Inl KeyError | Some v \<Rightarrow> Inr v)"

definition dict_get :: "('k \<times> 'v) list \<Rightarrow> 'k \<Rightarrow> 'v \<Rightarrow> 'v" where
  "dict_get d k dflt = (case map_of d k of None \<Rightarrow> dflt | Some v \<Rightarrow> v)"

section \<open>Position resolver\<close>

text \<open>The dictionary \<^verbatim>\<open>positions\<close> built at the start of \<^verbatim>\<open>_calculate_position\<close>.\<close>

definition positions ::
  "int \<Rightarrow> int \<Rightarrow> int \<Rightarrow> int \<Rightarrow> int \<Rightarrow> int \<Rightarrow> (string \<times> (int \<times> int)) list" where
  "positions base_width base_height wm_width wm_height margin_x margin_y =
     [(''top_left'', (margin_x, margin_y)),
      (''top_center'', ((base_width - wm_width) div 2, margin_y)),
      (''top_right'', (base_width - wm_width - margin_x, margin_y)),
      (''center_left'', (margin_x, (base_height - wm_height) div 2)),
      (''center'', ((base_width - wm_width) div 2, (base_height - wm_height) div 2)),
      (''center_right'', (base_width - wm_width - margin_x, (base_height - wm_height) div 2)),
      (''bottom_left'', (margin_x, base_height - wm_height - margin_y)),
      (''bottom_center'', ((base_width - wm_width) div 2, base_height - wm_height - margin_y)),
      (''bottom_right'', (base_width - wm_width - margin_x, base_height - wm_height - margin_y))]"

text \<open>
  \<^verbatim>\<open>_calculate_position\<close>: the default \<^verbatim>\<open>positions["bottom_right"]\<close> is evaluated
  first (Python evaluates arguments eagerly), then the lookup, then the offsets are added.
\<close>

definition calculate_position ::
  "int \<Rightarrow> int \<Rightarrow> int \<Rightarrow> int \<Rightarrow> string \<Rightarrow> int \<Rightarrow> int \<Rightarrow> int \<Rightarrow> int \<Rightarrow> exn + (int \<times> int)" where
  "calculate_position base_width base_height wm_width wm_height position
       margin_x margin_y offset_x offset_y =
     (let d = positions base_width base_height wm_width wm_height margin_x margin_y in
      case dict_getitem d ''bottom_right'' of
        Inl e \<Rightarrow> Inl e
      | Inr dflt \<Rightarrow>
          (case dict_get d position dflt of
             (base_x, base_y) \<Rightarrow>
               (let final_x = base_x + offset_x;
                    final_y = base_y + offset_y
                in Inr (final_x, final_y))))"

section \<open>Bounds clamp\<close>

text \<open>
  \<^verbatim>\<open>_ensure_watermark_fits\<close>: the two \<^verbatim>\<open>if\<close>/\<^verbatim>\<open>elif\<close> statements reassign
  \<^verbatim>\<open>pos_x\<close> and then \<^verbatim>\<open>pos_y\<close>; the function has no failing branch.
\<close>

definition ensure_watermark_fits ::
  "int \<Rightarrow> int \<Rightarrow> int \<Rightarrow> int \<Rightarrow> int \<Rightarrow> int \<Rightarrow> int \<times> int" where
  "ensure_watermark_fits base_width base_height wm_width wm_height pos_x pos_y =
     (let pos_x' = (if pos_x < 0 then 0
                    else if pos_x + wm_width > base_width then base_width - wm_width
                    else pos_x);
          pos_y' = (if pos_y < 0 then 0
                    else if pos_y + wm_height > base_height then base_height - wm_height
                    else pos_y)
      in (pos_x', pos_y'))"

text \<open>
  The rule of the specification for one axis, written from its words: if \<open>x < 0\<close> then
  \<open>0\<close>, else if \<open>x + w > W\<close> then \<open>W - w\<close>, else \<open>x\<close>.
\<close>

definition clamp_axis_spec :: "int \<Rightarrow> int \<Rightarrow> int \<Rightarrow> int" where
  "clamp_axis_spec W w x = (if x < 0 then 0 else if x + w > W then W - w else x)"

section \<open>Numbers of the host and of the image library\<close>

subsection \<open>Binary floating point\<close>

text \<open>
  A Python float is an IEEE double and an entry of the host's tensor is a 32-bit float.
  A finite float is modelled by the real number it stands for, and an operation rounds
  its exact result to the format, to the nearest value and to the even one at a tie.
  \<open>expo x\<close> is the binary exponent of a positive \<open>x\<close>: \<open>2 powi expo x \<le> x < 2 powi (expo x + 1)\<close>.
  \<open>rnd p emin x\<close> rounds \<open>x\<close> to \<open>p\<close> significant bits, the last place never below
  \<open>2 powi emin\<close> (the subnormal range). The float arguments of the node (scale, opacity,
  the entries of the tensor) are finite. Signed zeros and NaN are not modelled: no
  operation of the node tells the zeros apart, and none makes a NaN of finite operands.
  An infinity arises only as the result of a double operation, and the node hands such a
  result to \<^verbatim>\<open>int\<close> at once.
\<close>

definition expo :: "real \<Rightarrow> int" where
  "expo x = (if 1 \<le> x then bitlen \<lfloor>x\<rfloor> - 1 else - bitlen (\<lceil>1 / x\<rceil> - 1))"

definition rne :: "real \<Rightarrow> int" where
  "rne y = (let f = \<lfloor>y\<rfloor>; d = y - of_int f
            in if d < 1 / 2 then f else if 1 / 2 < d then f + 1
               else if even f then f else f + 1)"

definition rnd :: "nat \<Rightarrow> int \<Rightarrow> real \<Rightarrow> real" where
  "rnd p emin x =
     (if x = 0 then 0
      else (let e = max (expo \<bar>x\<bar> - (int p - 1)) emin
            in of_int (rne (x / 2 powi e)) * 2 powi e))"

text \<open>
  The double and the 32-bit float nearest to a real number. A float literal of the
  source or of an input, such as \<^verbatim>\<open>0.15\<close>, is \<open>double (15 / 100)\<close>. The 32-bit
  operations of the node work on bytes and on entries of the unit interval, far from
  the overflow of the format, which \<open>float32\<close> leaves out.
\<close>

definition double :: "real \<Rightarrow> real" where
  "double x = rnd 53 (- 1074) x"

definition float32 :: "real \<Rightarrow> real" where
  "float32 x = rnd 24 (- 149) x"

text \<open>
  The result of a double operation: a finite double, or an infinity when the rounded
  result reaches \<open>2 ^ 1024\<close>.
\<close>

datatype fp = Finite real | Infinite

definition fl64 :: "real \<Rightarrow> fp" where
  "fl64 x = (let r = double x in if 2 ^ 1024 \<le> \<bar>r\<bar> then Infinite else Finite r)"

text \<open>
  The values of a format: an integer of at most \<open>p\<close> bits (or \<open>2 ^ p\<close> itself) times a
  power of two not below the last place of the subnormal range.
\<close>

definition representable :: "nat \<Rightarrow> int \<Rightarrow> real \<Rightarrow> bool" where
  "representable p emin v = (\<exists>m j. v = of_int m * 2 powi j \<and> \<bar>m\<bar> \<le> 2 ^ p \<and> emin \<le> j)"

subsection \<open>Python arithmetic\<close>

text \<open>
  \<^verbatim>\<open>int(x)\<close> on a float truncates towards zero and raises \<^verbatim>\<open>OverflowError\<close> on an
  infinity. In \<^verbatim>\<open>n * x\<close> and \<^verbatim>\<open>n / x\<close> with an integer \<open>n\<close> and a float \<open>x\<close> the
  integer is converted first (\<^verbatim>\<open>OverflowError\<close> when it is too large for a double);
  a float divisor 0 raises \<^verbatim>\<open>ZeroDivisionError\<close>. \<^verbatim>\<open>a / b\<close> on two integers is the
  correctly rounded quotient, with \<^verbatim>\<open>ZeroDivisionError\<close> for \<open>b = 0\<close> and
  \<^verbatim>\<open>OverflowError\<close> when the quotient is too large for a double.
\<close>

definition py_trunc :: "real \<Rightarrow> int" where
  "py_trunc r = (if 0 \<le> r then \<lfloor>r\<rfloor> else \<lceil>r\<rceil>)"

definition py_int :: "fp \<Rightarrow> exn + int" where
  "py_int x = (case x of Finite r \<Rightarrow> Inr (py_trunc r) | Infinite \<Rightarrow> Inl OverflowError)"

definition float_of_int :: "int \<Rightarrow> exn + real" where
  "float_of_int n = (case fl64 (of_int n) of Finite r \<Rightarrow> Inr r | Infinite \<Rightarrow> Inl OverflowError)"

definition int_mul_float :: "int \<Rightarrow> real \<Rightarrow> exn + fp" where
  "int_mul_float n x = (case float_of_int n of Inl e \<Rightarrow> Inl e | Inr a \<Rightarrow> Inr (fl64 (a * x)))"

definition int_div_float :: "int \<Rightarrow> real \<Rightarrow> exn + fp" where
  "int_div_float n x =
     (case float_of_int n of
        Inl e \<Rightarrow> Inl e
      | Inr a \<Rightarrow> if x = 0 then Inl ZeroDivisionError else Inr (fl64 (a / x)))"

definition int_truediv :: "int \<Rightarrow> int \<Rightarrow> exn + real" where
  "int_truediv a b =
     (if b = 0 then Inl ZeroDivisionError
      else (case fl64 (of_int a / of_int b) of
              Finite r \<Rightarrow> Inr r
            | Infinite \<Rightarrow> Inl OverflowError))"

text \<open>\<^verbatim>\<open>int(n * x)\<close> and \<^verbatim>\<open>int(n / x)\<close> for an integer \<open>n\<close> and a float \<open>x\<close>.\<close>

definition int_of_product :: "int \<Rightarrow> real \<Rightarrow> exn + int" where
  "int_of_product n x = (case int_mul_float n x of Inl e \<Rightarrow> Inl e | Inr y \<Rightarrow> py_int y)"

definition int_of_quotient :: "int \<Rightarrow> real \<Rightarrow> exn + int" where
  "int_of_quotient n x = (case int_div_float n x of Inl e \<Rightarrow> Inl e | Inr y \<Rightarrow> py_int y)"

subsection \<open>Bytes\<close>

text \<open>
  A byte of an image is an \<open>8 word\<close>. \<^verbatim>\<open>astype(np.uint8)\<close> truncates the float;
  outside 0 to 255 the cast is not defined by NumPy, and the model keeps the low eight
  bits there. The look-up table of \<^verbatim>\<open>Image.point\<close> saturates at 0 and 255.
\<close>

type_synonym byte = "8 word"

definition astype_uint8 :: "real \<Rightarrow> byte" where
  "astype_uint8 v = word_of_int (py_trunc v)"

definition clip8 :: "int \<Rightarrow> byte" where
  "clip8 v = (if v < 0 then 0 else if 255 < v then 255 else word_of_int v)"

section \<open>Watermark resize: the target size\<close>

text \<open>
  Lines 71 to 81 of \<^verbatim>\<open>apply_watermark\<close>: the size handed to \<^verbatim>\<open>watermark.resize\<close>.
  The statements run in the order of the source, so the first exception is the one of
  the source. The comparison of the source is strict.
\<close>

definition resize_dimensions :: "int \<Rightarrow> int \<Rightarrow> int \<Rightarrow> int \<Rightarrow> real \<Rightarrow> exn + (int \<times> int)" where
  "resize_dimensions base_width base_height wm_width wm_height scale =
     (let min_dimension = min base_width base_height
      in case int_of_product min_dimension scale of
           Inl e \<Rightarrow> Inl e
         | Inr watermark_size \<Rightarrow>
             (case int_truediv wm_width wm_height of
                Inl e \<Rightarrow> Inl e
              | Inr watermark_ratio \<Rightarrow>
                  if wm_width > wm_height
                  then (let new_width = watermark_size
                        in case int_of_quotient watermark_size watermark_ratio of
                             Inl e \<Rightarrow> Inl e
                           | Inr new_height \<Rightarrow> Inr (new_width, new_height))
                  else (let new_height = watermark_size
                        in case int_of_product watermark_size watermark_ratio of
                             Inl e \<Rightarrow> Inl e
                           | Inr new_width \<Rightarrow> Inr (new_width, new_height))))"

text \<open>
  The target size in the words of the specification, as a formula over the real numbers:
  the long edge is \<open>round (reference * scale)\<close>, the case split is \<open>width \<ge> height\<close>, and
  the short edge is rounded as well.
\<close>

definition spec_target_size :: "int \<Rightarrow> int \<Rightarrow> int \<Rightarrow> int \<Rightarrow> real \<Rightarrow> int \<times> int" where
  "spec_target_size base_width base_height wm_width wm_height scale =
     (let reference = min base_width base_height;
          target_long_edge = round (real_of_int reference * scale);
          aspect_ratio = real_of_int wm_width / real_of_int wm_height
      in if wm_width \<ge> wm_height
         then (target_long_edge, round (real_of_int target_long_edge / aspect_ratio))
         else (round (real_of_int target_long_edge * aspect_ratio), target_long_edge))"

text \<open>
  The same in the arithmetic of the source, with the truncation \<^verbatim>\<open>int(...)\<close> in place
  of every rounding and the case split \<open>width \<ge> height\<close> of the specification.
\<close>

definition truncated_target_size :: "int \<Rightarrow> int \<Rightarrow> int \<Rightarrow> int \<Rightarrow> real \<Rightarrow> exn + (int \<times> int)" where
  "truncated_target_size base_width base_height wm_width wm_height scale =
     (let reference = min base_width base_height
      in case int_of_product reference scale of
           Inl e \<Rightarrow> Inl e
         | Inr target_long_edge \<Rightarrow>
             (case int_truediv wm_width wm_height of
                Inl e \<Rightarrow> Inl e
              | Inr aspect_ratio \<Rightarrow>
                  if wm_width \<ge> wm_height
                  then (case int_of_quotient target_long_edge aspect_ratio of
                          Inl e \<Rightarrow> Inl e
                        | Inr target_height \<Rightarrow> Inr (target_long_edge, target_height))
                  else (case int_of_product target_long_edge aspect_ratio of
                          Inl e \<Rightarrow> Inl e
                        | Inr target_width \<Rightarrow> Inr (target_width, target_long_edge))))"

text \<open>
  A dimension of an image of the library: positive, and held in a C \<^verbatim>\<open>int\<close>.
\<close>

definition image_dim :: "int \<Rightarrow> bool" where
  "image_dim n = (0 < n \<and> n < 2 ^ 31)"

section \<open>Images\<close>

text \<open>
  The host hands over a tensor of shape batch, height, width, channels whose entries
  are 32-bit floats; \<open>item t b y x c\<close> is the entry \<^verbatim>\<open>t[b][y][x][c]\<close>, meaningful for
  indices inside the shape.
\<close>

record tensor =
  batch :: nat
  rows :: nat
  cols :: nat
  channels :: nat
  item :: "nat \<Rightarrow> nat \<Rightarrow> nat \<Rightarrow> nat \<Rightarrow> real"

text \<open>
  An image of the image library (PIL) has a mode, a size and pixels; the library stores
  four bytes per pixel in the three modes the node can meet: \<^verbatim>\<open>RGBA\<close>, \<^verbatim>\<open>RGB\<close> (the
  fourth byte is padding, 255) and \<^verbatim>\<open>LA\<close> (grey with alpha: the grey value three
  times, then alpha). \<open>getpixel im x y\<close> is the pixel in column \<open>x\<close> of row \<open>y\<close>,
  meaningful for \<open>0 \<le> x < width im\<close> and \<open>0 \<le> y < height im\<close>.
\<close>

datatype mode = LA | RGB | RGBA

datatype pixel = Pixel (red: byte) (green: byte) (blue: byte) (alpha: byte)

record pil_image =
  mode :: mode
  width :: int
  height :: int
  getpixel :: "int \<Rightarrow> int \<Rightarrow> pixel"

text \<open>
  What the node reads from outside its own code: the file system with the image decoder
  (a path is missing, or exists and cannot be decoded, or decodes to an image), and the
  arithmetic of the image library that the claims do not depend on, taken as parameters:
  the resampling filter of \<^verbatim>\<open>resize\<close> (pixel \<open>x y\<close> of the image resized to a new
  width and height), the mixing of \<^verbatim>\<open>paste\<close> for a mask value strictly between 0 and
  255, and the blending of \<^verbatim>\<open>alpha_composite\<close> for a source pixel that is not fully
  transparent.
\<close>

datatype file_state = Missing | Unreadable | Readable pil_image

record world =
  fs :: "string \<Rightarrow> file_state"
  resample :: "pil_image \<Rightarrow> int \<Rightarrow> int \<Rightarrow> int \<Rightarrow> int \<Rightarrow> pixel"
  mix :: "byte \<Rightarrow> pixel \<Rightarrow> pixel \<Rightarrow> pixel"
  over :: "pixel \<Rightarrow> pixel \<Rightarrow> pixel"

subsection \<open>From the tensor to an image and back\<close>

text \<open>
  \<^verbatim>\<open>img_array.max() <= 1.0\<close> on the first image of the batch; \<^verbatim>\<open>max\<close> of an array
  without entries raises.
\<close>

definition max_le_one :: "tensor \<Rightarrow> bool" where
  "max_le_one img =
     (\<forall>y < rows img. \<forall>x < cols img. \<forall>c < channels img. item img 0 y x c \<le> 1)"

definition to_uint8 :: "tensor \<Rightarrow> nat \<Rightarrow> nat \<Rightarrow> nat \<Rightarrow> byte" where
  "to_uint8 img =
     (if max_le_one img
      then (\<lambda>y x c. astype_uint8 (float32 (item img 0 y x c * 255)))
      else (\<lambda>y x c. astype_uint8 (item img 0 y x c)))"

text \<open>
  \<^verbatim>\<open>Image.fromarray\<close> on a byte array of shape height, width, channels: two
  channels give mode \<^verbatim>\<open>LA\<close>, three give \<^verbatim>\<open>RGB\<close>, four give \<^verbatim>\<open>RGBA\<close>; the
  library has no mode for another channel count and raises \<^verbatim>\<open>TypeError\<close>.
\<close>

definition fromarray :: "nat \<Rightarrow> nat \<Rightarrow> nat \<Rightarrow> (nat \<Rightarrow> nat \<Rightarrow> nat \<Rightarrow> byte) \<Rightarrow> exn + pil_image" where
  "fromarray h w c arr =
     (if c = 2 then
        Inr \<lparr>mode = LA, width = int w, height = int h,
             getpixel = (\<lambda>x y. Pixel (arr (nat y) (nat x) 0) (arr (nat y) (nat x) 0)
                                      (arr (nat y) (nat x) 0) (arr (nat y) (nat x) 1))\<rparr>
      else if c = 3 then
        Inr \<lparr>mode = RGB, width = int w, height = int h,
             getpixel = (\<lambda>x y. Pixel (arr (nat y) (nat x) 0) (arr (nat y) (nat x) 1)
                                      (arr (nat y) (nat x) 2) 255)\<rparr>
      else if c = 4 then
        Inr \<lparr>mode = RGBA, width = int w, height = int h,
             getpixel = (\<lambda>x y. Pixel (arr (nat y) (nat x) 0) (arr (nat y) (nat x) 1)
                                      (arr (nat y) (nat x) 2) (arr (nat y) (nat x) 3))\<rparr>
      else Inl TypeError)"

text \<open>Lines 42 to 49: \<^verbatim>\<open>image[0]\<close>, the scaling to bytes, \<^verbatim>\<open>Image.fromarray\<close>.\<close>

definition tensor_to_pil :: "tensor \<Rightarrow> exn + pil_image" where
  "tensor_to_pil img =
     (if batch img = 0 then Inl IndexError
      else if rows img = 0 \<or> cols img = 0 \<or> channels img = 0 then Inl ValueError
      else fromarray (rows img) (cols img) (channels img) (to_uint8 img))"

text \<open>
  \<^verbatim>\<open>np.array(im)\<close> has one channel per band of the mode: grey and alpha for
  \<^verbatim>\<open>LA\<close>, the colours for \<^verbatim>\<open>RGB\<close>, the colours and alpha for \<^verbatim>\<open>RGBA\<close>.
\<close>

definition bands :: "mode \<Rightarrow> nat" where
  "bands m = (case m of LA \<Rightarrow> 2 | RGB \<Rightarrow> 3 | RGBA \<Rightarrow> 4)"

definition channel :: "mode \<Rightarrow> nat \<Rightarrow> pixel \<Rightarrow> byte" where
  "channel m c p =
     (case m of
        LA \<Rightarrow> (if c = 0 then red p else alpha p)
      | _ \<Rightarrow> (if c = 0 then red p else if c = 1 then green p
               else if c = 2 then blue p else alpha p))"

text \<open>
  Lines 124 and 125: \<^verbatim>\<open>np.array(result).astype(np.float32) / 255.0\<close>, a division of
  32-bit floats, and \<^verbatim>\<open>unsqueeze(0)\<close>.
\<close>

definition pil_to_tensor :: "pil_image \<Rightarrow> tensor" where
  "pil_to_tensor result =
     \<lparr>batch = 1, rows = nat (height result), cols = nat (width result),
      channels = bands (mode result),
      item = (\<lambda>b y x c.
                float32 (real (unat (channel (mode result) c
                                       (getpixel result (int x) (int y)))) / 255))\<rparr>"

subsection \<open>Operations of the image library\<close>

text \<open>
  \<^verbatim>\<open>convert("RGBA")\<close>: an \<^verbatim>\<open>RGB\<close> image gets the alpha 255, an \<^verbatim>\<open>LA\<close> image
  keeps its alpha and its grey value becomes the three colours, which are the bytes it
  has. \<^verbatim>\<open>convert("RGB")\<close>: the alpha channel is dropped (the padding byte is 255).
\<close>

definition convert_rgba :: "pil_image \<Rightarrow> pil_image" where
  "convert_rgba im =
     (case mode im of
        RGBA \<Rightarrow> im
      | LA \<Rightarrow> im\<lparr>mode := RGBA\<rparr>
      | RGB \<Rightarrow>
          im\<lparr>mode := RGBA,
             getpixel := (\<lambda>x y. case getpixel im x y of Pixel r g b a \<Rightarrow> Pixel r g b 255)\<rparr>)"

definition convert_rgb :: "pil_image \<Rightarrow> pil_image" where
  "convert_rgb im =
     (case mode im of
        RGB \<Rightarrow> im
      | _ \<Rightarrow>
          im\<lparr>mode := RGB,
             getpixel := (\<lambda>x y. case getpixel im x y of Pixel r g b a \<Rightarrow> Pixel r g b 255)\<rparr>)"

definition os_path_exists :: "world \<Rightarrow> string \<Rightarrow> bool" where
  "os_path_exists world path = (fs world path \<noteq> Missing)"

text \<open>\<^verbatim>\<open>Image.open(watermark_path).convert("RGBA")\<close>.\<close>

definition image_open_rgba :: "world \<Rightarrow> string \<Rightarrow> exn + pil_image" where
  "image_open_rgba world path =
     (case fs world path of
        Readable im \<Rightarrow> Inr (convert_rgba im)
      | _ \<Rightarrow> Inl OSError)"

text \<open>
  \<^verbatim>\<open>watermark.resize((new_width, new_height), LANCZOS)\<close>: the library rejects a width
  or height below 1 with \<^verbatim>\<open>ValueError\<close> and returns a copy when the size is unchanged.
\<close>

definition resize :: "world \<Rightarrow> pil_image \<Rightarrow> int \<times> int \<Rightarrow> exn + pil_image" where
  "resize world im new_size =
     (case new_size of
        (new_width, new_height) \<Rightarrow>
          if new_width < 1 \<or> new_height < 1 then Inl ValueError
          else if (new_width, new_height) = (width im, height im) then Inr im
          else Inr (im\<lparr>width := new_width, height := new_height,
                       getpixel := resample world im new_width new_height\<rparr>))"

text \<open>
  Lines 106 to 110: the alpha band of the watermark, \<^verbatim>\<open>point\<close> with the function
  \<^verbatim>\<open>lambda p: int(p * opacity)\<close>, and \<^verbatim>\<open>putalpha\<close>. \<^verbatim>\<open>point\<close> calls the function
  on each of the 256 byte values in turn to build a look-up table, so an exception of the
  function leaves \<^verbatim>\<open>point\<close>; the entries of the table saturate.
\<close>

fun collect :: "(exn + 'a) list \<Rightarrow> exn + 'a list" where
  "collect [] = Inr []"
| "collect (r # rs) =
     (case r of
        Inl e \<Rightarrow> Inl e
      | Inr v \<Rightarrow> (case collect rs of Inl e \<Rightarrow> Inl e | Inr vs \<Rightarrow> Inr (v # vs)))"

definition split_alpha :: "pil_image \<Rightarrow> int \<Rightarrow> int \<Rightarrow> byte" where
  "split_alpha im = (\<lambda>x y. alpha (getpixel im x y))"

definition point ::
  "(int \<Rightarrow> int \<Rightarrow> byte) \<Rightarrow> (int \<Rightarrow> exn + int) \<Rightarrow> exn + (int \<Rightarrow> int \<Rightarrow> byte)" where
  "point band f =
     (case collect (map (\<lambda>i. f (int i)) [0..<256]) of
        Inl e \<Rightarrow> Inl e
      | Inr lut \<Rightarrow> Inr (\<lambda>x y. clip8 (lut ! unat (band x y))))"

definition putalpha :: "pil_image \<Rightarrow> (int \<Rightarrow> int \<Rightarrow> byte) \<Rightarrow> pil_image" where
  "putalpha im band =
     im\<lparr>getpixel := (\<lambda>x y. case getpixel im x y of Pixel r g b a \<Rightarrow> Pixel r g b (band x y))\<rparr>"

definition apply_opacity :: "real \<Rightarrow> pil_image \<Rightarrow> exn + pil_image" where
  "apply_opacity opacity watermark =
     (if opacity < 1 then
        (let watermark_with_opacity = watermark;
             alpha_band = split_alpha watermark_with_opacity
         in case point alpha_band (\<lambda>p. int_of_product p opacity) of
              Inl e \<Rightarrow> Inl e
            | Inr alpha_band \<Rightarrow> Inr (putalpha watermark_with_opacity alpha_band))
      else Inr watermark)"

text \<open>\<^verbatim>\<open>Image.new('RGBA', size, (0, 0, 0, 0))\<close>.\<close>

definition new_rgba :: "int \<times> int \<Rightarrow> pil_image" where
  "new_rgba sz = \<lparr>mode = RGBA, width = fst sz, height = snd sz,
                  getpixel = (\<lambda>x y. Pixel 0 0 0 0)\<rparr>"

text \<open>
  \<^verbatim>\<open>dest.paste(im, (pos_x, pos_y), mask)\<close>: inside the box of the pasted image, where
  the alpha of the mask is 0 the current pixel is kept, where it is 255 the pasted pixel
  is copied, and the values between mix the two; outside the box, and outside the
  destination, nothing changes (the box is cropped silently).
\<close>

definition paste :: "world \<Rightarrow> pil_image \<Rightarrow> pil_image \<Rightarrow> int \<times> int \<Rightarrow> pil_image \<Rightarrow> pil_image" where
  "paste world dest im pos mask_im =
     (case pos of
        (pos_x, pos_y) \<Rightarrow>
          dest\<lparr>getpixel :=
            (\<lambda>x y.
               if pos_x \<le> x \<and> x < pos_x + width im \<and> pos_y \<le> y \<and> y < pos_y + height im
               then (let m = alpha (getpixel mask_im (x - pos_x) (y - pos_y));
                         cur = getpixel dest x y;
                         src = getpixel im (x - pos_x) (y - pos_y)
                     in if m = 0 then cur else if m = 255 then src else mix world m cur src)
               else getpixel dest x y)\<rparr>)"

text \<open>
  \<^verbatim>\<open>Image.alpha_composite(im1, im2)\<close>: both images must be \<^verbatim>\<open>RGBA\<close> and of one size;
  where the pixel of \<open>im2\<close> is fully transparent the pixel of \<open>im1\<close> is the result.
\<close>

definition alpha_composite :: "world \<Rightarrow> pil_image \<Rightarrow> pil_image \<Rightarrow> exn + pil_image" where
  "alpha_composite world im1 im2 =
     (if mode im1 \<noteq> RGBA \<or> mode im2 \<noteq> RGBA
         \<or> width im1 \<noteq> width im2 \<or> height im1 \<noteq> height im2
      then Inl ValueError
      else Inr (im1\<lparr>getpixel :=
                  (\<lambda>x y. let d = getpixel im1 x y; s = getpixel im2 x y
                          in if alpha s = 0 then d else over world d s)\<rparr>))"

section \<open>The node's operation\<close>

text \<open>
  The body of the \<^verbatim>\<open>try\<close> block of \<^verbatim>\<open>apply_watermark\<close>. \<open>Inl\<close> is an exception
  that leaves the block; the two early \<^verbatim>\<open>return (image,)\<close> (missing file, and the
  inner handler around the loading of the watermark) are \<open>Inr img\<close>, where
  \<open>img\<close> is the argument \<^verbatim>\<open>image\<close>. The messages
  printed on the way are not modelled, and neither is the one-element tuple around the
  returned tensor.
\<close>

definition apply_watermark_body ::
  "world \<Rightarrow> tensor \<Rightarrow> string \<Rightarrow> string \<Rightarrow> real \<Rightarrow> real \<Rightarrow> int \<Rightarrow> int \<Rightarrow> int \<Rightarrow> int
     \<Rightarrow> exn + tensor" where
  "apply_watermark_body world img watermark_path position opacity scale
       margin_x margin_y offset_x offset_y =
     (case tensor_to_pil img of
        Inl e \<Rightarrow> Inl e
      | Inr base_image \<Rightarrow>
          if \<not> os_path_exists world watermark_path then Inr img
          else
            (case image_open_rgba world watermark_path of
               Inl e \<Rightarrow> Inr img
             | Inr watermark \<Rightarrow>
                 (let base_width = width base_image;
                      base_height = height base_image
                  in case resize_dimensions base_width base_height
                            (width watermark) (height watermark) scale of
                       Inl e \<Rightarrow> Inl e
                     | Inr new_size \<Rightarrow>
                  (case resize world watermark new_size of
                       Inl e \<Rightarrow> Inl e
                     | Inr watermark \<Rightarrow>
                  (case calculate_position base_width base_height
                            (width watermark) (height watermark)
                            position margin_x margin_y offset_x offset_y of
                       Inl e \<Rightarrow> Inl e
                     | Inr (pos_x, pos_y) \<Rightarrow>
                  (case ensure_watermark_fits base_width base_height
                            (width watermark) (height watermark) pos_x pos_y of
                       (pos_x, pos_y) \<Rightarrow>
                  (let base_image = (if mode base_image \<noteq> RGBA
                                     then convert_rgba base_image else base_image)
                   in case apply_opacity opacity watermark of
                        Inl e \<Rightarrow> Inl e
                      | Inr watermark \<Rightarrow>
                  (let temp_img = new_rgba (width base_image, height base_image);
                       temp_img = paste world temp_img watermark (pos_x, pos_y) watermark
                   in case alpha_composite world base_image temp_img of
                        Inl e \<Rightarrow> Inl e
                      | Inr result \<Rightarrow>
                          (let result = (if channels img = 3
                                         then convert_rgb result else result)
                           in Inr (pil_to_tensor result))))))))))"

text \<open>
  \<^verbatim>\<open>apply_watermark\<close>: the handler \<^verbatim>\<open>except Exception\<close> around the body returns the
  input.
\<close>

definition apply_watermark ::
  "world \<Rightarrow> tensor \<Rightarrow> string \<Rightarrow> string \<Rightarrow> real \<Rightarrow> real \<Rightarrow> int \<Rightarrow> int \<Rightarrow> int \<Rightarrow> int \<Rightarrow> tensor" where
  "apply_watermark world img watermark_path position opacity scale
       margin_x margin_y offset_x offset_y =
     (case apply_watermark_body world img watermark_path position opacity scale
             margin_x margin_y offset_x offset_y of
        Inl e \<Rightarrow> img
      | Inr result \<Rightarrow> result)"

subsection \<open>Predicates on tensors\<close>

text \<open>
  A normalized first image: every entry of \<^verbatim>\<open>image[0]\<close> lies between 0 and 1.
  \<open>quantized v\<close> is an entry \<open>v\<close> after the scaling to a byte and back, as lines 46
  and 124 compute it.
\<close>

definition normalized :: "tensor \<Rightarrow> bool" where
  "normalized img =
     (\<forall>y < rows img. \<forall>x < cols img. \<forall>c < channels img.
        0 \<le> item img 0 y x c \<and> item img 0 y x c \<le> 1)"

definition quantized :: "real \<Rightarrow> real" where
  "quantized v = float32 (real (unat (astype_uint8 (float32 (v * 255)))) / 255)"

text \<open>
  The tensor with batch size \<open>n\<close> whose first image is the one of \<open>img\<close> and whose other
  images are taken from \<open>rest\<close>.
\<close>

definition rest_replaced :: "tensor \<Rightarrow> nat \<Rightarrow> (nat \<Rightarrow> nat \<Rightarrow> nat \<Rightarrow> nat \<Rightarrow> real) \<Rightarrow> tensor" where
  "rest_replaced img n rest =
     img\<lparr>batch := n, item := (\<lambda>b. if b = 0 then item img 0 else rest b)\<rparr>"

subsection \<open>A concrete world and a concrete input\<close>

text \<open>
  One file that decodes to a watermark of 4 by 2 pixels, one file that does not decode,
  nearest-neighbour resampling and integer blending; a batch of two grey images of 6 by
  4 pixels with three channels.
\<close>

definition example_watermark :: pil_image where
  "example_watermark =
     \<lparr>mode = RGBA, width = 4, height = 2,
      getpixel = (\<lambda>x y. Pixel 200 100 50 (if x < 2 then 255 else 128))\<rparr>"

definition example_blend :: "byte \<Rightarrow> byte \<Rightarrow> byte \<Rightarrow> byte" where
  "example_blend m cur src =
     word_of_int ((uint cur * (255 - uint m) + uint src * uint m) div 255)"

definition example_world :: world where
  "example_world =
     \<lparr>fs = (\<lambda>p. if p = ''wm.png'' then Readable example_watermark
                 else if p = ''broken.png'' then Unreadable else Missing),
      resample = (\<lambda>im new_width new_height x y.
                    getpixel im (x * width im div new_width) (y * height im div new_height)),
      mix = (\<lambda>m cur src. Pixel (example_blend m (red cur) (red src))
                                (example_blend m (green cur) (green src))
                                (example_blend m (blue cur) (blue src))
                                (example_blend m (alpha cur) (alpha src))),
      over = (\<lambda>d s. Pixel (example_blend (alpha s) (red d) (red s))
                           (example_blend (alpha s) (green d) (green s))
                           (example_blend (alpha s) (blue d) (blue s))
                           (example_blend (alpha s) (alpha d) 255))\<rparr>"

definition example_image :: tensor where
  "example_image =
     \<lparr>batch = 2, rows = 4, cols = 6, channels = 3,
      item = (\<lambda>b y x c. if b = 0 then 1 / 2 else 1 / 4)\<rparr>"

section \<open>Properties of the position resolver\<close>

lemma dict_getitem_bottom_right:
  "dict_getitem (positions W H w h mx my) ''bottom_right'' = Inr (W - w - mx, H - h - my)"
  by (simp add: dict_getitem_def positions_def)

lemma dict_get_unknown:
  "position \<notin> set anchor_names \<Longrightarrow> dict_get (positions W H w h mx my) position dflt = dflt"
  by (simp add: dict_get_def positions_def anchor_names_def)

text \<open>
  Claim C2. For all base and watermark dimensions, margins and offsets the resolver
  returns the table entry of the anchor plus the offsets, with floor division for the
  centred coordinates, and for a string that is none of the nine anchors it returns the
  values of \<^verbatim>\<open>bottom_right\<close>. It never raises.
\<close>

theorem calculate_position_table:
  "calculate_position W H w h ''top_left'' mx my ox oy = Inr (mx + ox, my + oy)
   \<and> calculate_position W H w h ''top_center'' mx my ox oy = Inr ((W - w) div 2 + ox, my + oy)
   \<and> calculate_position W H w h ''top_right'' mx my ox oy = Inr (W - w - mx + ox, my + oy)
   \<and> calculate_position W H w h ''center_left'' mx my ox oy = Inr (mx + ox, (H - h) div 2 + oy)
   \<and> calculate_position W H w h ''center'' mx my ox oy
       = Inr ((W - w) div 2 + ox, (H - h) div 2 + oy)
   \<and> calculate_position W H w h ''center_right'' mx my ox oy
       = Inr (W - w - mx + ox, (H - h) div 2 + oy)
   \<and> calculate_position W H w h ''bottom_left'' mx my ox oy = Inr (mx + ox, H - h - my + oy)
   \<and> calculate_position W H w h ''bottom_center'' mx my ox oy
       = Inr ((W - w) div 2 + ox, H - h - my + oy)
   \<and> calculate_position W H w h ''bottom_right'' mx my ox oy
       = Inr (W - w - mx + ox, H - h - my + oy)
   \<and> (position \<notin> set anchor_names \<longrightarrow>
        calculate_position W H w h position mx my ox oy
          = Inr (W - w - mx + ox, H - h - my + oy))"
proof -
  have known: "\<And>a. a \<in> set anchor_names \<Longrightarrow>
      calculate_position W H w h a mx my ox oy
        = (case dict_get (positions W H w h mx my) a (W - w - mx, H - h - my) of
             (bx, by) \<Rightarrow> Inr (bx + ox, by + oy))"
    by (simp add: calculate_position_def dict_getitem_bottom_right Let_def)
  have unknown: "position \<notin> set anchor_names \<Longrightarrow>
      calculate_position W H w h position mx my ox oy = Inr (W - w - mx + ox, H - h - my + oy)"
    by (simp add: calculate_position_def dict_getitem_bottom_right dict_get_unknown Let_def)
  show ?thesis
    using unknown
    by (simp add: known anchor_names_def dict_get_def positions_def)
qed

theorem calculate_position_table_witness:
  "''nowhere'' \<notin> set anchor_names
   \<and> calculate_position 1000 500 200 100 ''bottom_right'' 20 20 0 0 = Inr (780, 380)
   \<and> calculate_position 1000 500 200 100 ''center'' 20 20 3 (-4) = Inr (403, 196)
   \<and> calculate_position 1000 500 200 100 ''nowhere'' 20 20 0 0 = Inr (780, 380)"
proof -
  have out: "''nowhere'' \<notin> set anchor_names"
    by (simp add: anchor_names_def)
  from calculate_position_table [of 1000 500 200 100 20 20 0 0 "''nowhere''"]
  have a: "calculate_position 1000 500 200 100 ''bottom_right'' 20 20 0 0 = Inr (780, 380)"
    and b: "calculate_position 1000 500 200 100 ''nowhere'' 20 20 0 0 = Inr (780, 380)"
    using out by simp_all
  from calculate_position_table [of 1000 500 200 100 20 20 3 "-4" "''nowhere''"]
  have c: "calculate_position 1000 500 200 100 ''center'' 20 20 3 (-4) = Inr (403, 196)"
    by simp
  show ?thesis using out a b c by simp
qed

section \<open>Properties of the bounds clamp\<close>

lemma ensure_watermark_fits_axes:
  "ensure_watermark_fits W H w h x y = (clamp_axis_spec W w x, clamp_axis_spec H h y)"
  by (simp add: ensure_watermark_fits_def clamp_axis_spec_def Let_def)

lemma clamp_axis_spec_idem_iff:
  "clamp_axis_spec W w (clamp_axis_spec W w x) = clamp_axis_spec W w x \<longleftrightarrow> w \<le> W"
  by (auto simp: clamp_axis_spec_def)

lemma clamp_axis_spec_range:
  "w \<le> W \<Longrightarrow> 0 \<le> clamp_axis_spec W w x \<and> clamp_axis_spec W w x \<le> W - w"
  by (auto simp: clamp_axis_spec_def)

text \<open>
  Claim C3. The clamp treats the two axes independently, each by the rule
  ``if \<open>x < 0\<close> then \<open>0\<close>, else if \<open>x + w > W\<close> then \<open>W - w\<close>'' (and the position is
  kept otherwise); when the watermark is wider than the base image and the candidate is
  not negative the result \<open>W - w\<close> is negative, and likewise for the height. The function
  is total: its result is a position for every input, there is no rejecting branch.
\<close>

theorem ensure_watermark_fits_rule:
  "ensure_watermark_fits W H w h x y
     = (if x < 0 then 0 else if x + w > W then W - w else x,
        if y < 0 then 0 else if y + h > H then H - h else y)
   \<and> fst (ensure_watermark_fits W H w h x y) = clamp_axis_spec W w x
   \<and> snd (ensure_watermark_fits W H w h x y) = clamp_axis_spec H h y
   \<and> (W < w \<and> 0 \<le> x \<longrightarrow> fst (ensure_watermark_fits W H w h x y) = W - w
        \<and> fst (ensure_watermark_fits W H w h x y) < 0)
   \<and> (H < h \<and> 0 \<le> y \<longrightarrow> snd (ensure_watermark_fits W H w h x y) = H - h
        \<and> snd (ensure_watermark_fits W H w h x y) < 0)"
  by (simp add: ensure_watermark_fits_def clamp_axis_spec_def Let_def)

theorem ensure_watermark_fits_rule_witness:
  "ensure_watermark_fits 100 100 150 80 10 30 = (-50, 20)
   \<and> ensure_watermark_fits 100 100 80 150 (-7) 0 = (0, -50)"
  using ensure_watermark_fits_rule [of 100 100 150 80 10 30]
    ensure_watermark_fits_rule [of 100 100 80 150 "-7" 0]
  by simp

text \<open>
  Claim C4, as stated (the clamp is idempotent for every input, also when the watermark
  exceeds the base image), fails: for a base image 100 wide and a watermark 150 wide the
  candidate \<open>x = -5\<close> is clamped to \<open>0\<close>, and clamping \<open>0\<close> again gives \<open>-50\<close>.
\<close>

theorem clamp_not_idempotent:
  "\<not> (case ensure_watermark_fits 100 100 150 80 (-5) 10 of
        (x, y) \<Rightarrow> ensure_watermark_fits 100 100 150 80 x y
                    = ensure_watermark_fits 100 100 150 80 (-5) 10)"
  by (simp add: ensure_watermark_fits_def Let_def)

text \<open>
  Claim C4, amended. Clamping a second time gives the same position exactly when the
  watermark is no larger than the base image on both axes; in particular the clamp is
  idempotent for every candidate position whenever \<open>w \<le> W\<close> and \<open>h \<le> H\<close>.
\<close>

theorem clamp_idempotent_iff:
  "(case ensure_watermark_fits W H w h x y of
      (x', y') \<Rightarrow> ensure_watermark_fits W H w h x' y' = ensure_watermark_fits W H w h x y)
   \<longleftrightarrow> w \<le> W \<and> h \<le> H"
  by (simp add: ensure_watermark_fits_axes clamp_axis_spec_idem_iff)

theorem clamp_idempotent_iff_witness:
  "(case ensure_watermark_fits 1000 500 200 100 990 (-3) of
      (x', y') \<Rightarrow> ensure_watermark_fits 1000 500 200 100 x' y'
                    = ensure_watermark_fits 1000 500 200 100 990 (-3))
   \<and> ensure_watermark_fits 1000 500 200 100 990 (-3) = (800, 0)"
proof -
  have "(200::int) \<le> 1000 \<and> (100::int) \<le> 500" by simp
  then show ?thesis
    using clamp_idempotent_iff [of 1000 500 200 100 990 "-3"]
    by (simp add: ensure_watermark_fits_def Let_def)
qed

text \<open>
  Claim C5. If the watermark is no larger than the base image on both axes, the clamped
  position satisfies \<open>0 \<le> x \<le> W - w\<close> and \<open>0 \<le> y \<le> H - h\<close> for every candidate
  position; in particular for the position resolved for each of the nine anchors with
  margins and offsets \<open>0\<close>.
\<close>

theorem clamp_within_bounds:
  assumes "w \<le> W" and "h \<le> H"
  shows "(case ensure_watermark_fits W H w h x y of
            (x', y') \<Rightarrow> 0 \<le> x' \<and> x' \<le> W - w \<and> 0 \<le> y' \<and> y' \<le> H - h)
         \<and> (\<forall>a \<in> set anchor_names.
               case calculate_position W H w h a 0 0 0 0 of
                 Inl e \<Rightarrow> False
               | Inr (px, py) \<Rightarrow>
                   (case ensure_watermark_fits W H w h px py of
                      (x', y') \<Rightarrow> 0 \<le> x' \<and> x' \<le> W - w \<and> 0 \<le> y' \<and> y' \<le> H - h))"
proof -
  have range: "\<And>x y. case ensure_watermark_fits W H w h x y of
      (x', y') \<Rightarrow> 0 \<le> x' \<and> x' \<le> W - w \<and> 0 \<le> y' \<and> y' \<le> H - h"
    using assms clamp_axis_spec_range [of w W] clamp_axis_spec_range [of h H]
    by (simp add: ensure_watermark_fits_axes)
  have anchors: "case calculate_position W H w h a 0 0 0 0 of
          Inl e \<Rightarrow> False
        | Inr (px, py) \<Rightarrow>
            (case ensure_watermark_fits W H w h px py of
               (x', y') \<Rightarrow> 0 \<le> x' \<and> x' \<le> W - w \<and> 0 \<le> y' \<and> y' \<le> H - h)" for a
  proof (cases "calculate_position W H w h a 0 0 0 0")
    case (Inl e)
    then show ?thesis
      by (simp add: calculate_position_def dict_getitem_bottom_right Let_def
          split: prod.splits)
  next
    case (Inr p)
    then show ?thesis using range [of "fst p" "snd p"]
      by (simp add: case_prod_beta)
  qed
  show ?thesis
    by (intro conjI ballI) (rule range, rule anchors)
qed

theorem clamp_within_bounds_witness:
  "(200::int) \<le> 1000 \<and> (100::int) \<le> 500
   \<and> ensure_watermark_fits 1000 500 200 100 950 (-30) = (800, 0)
   \<and> calculate_position 1000 500 200 100 ''center'' 0 0 0 0 = Inr (400, 200)
   \<and> ensure_watermark_fits 1000 500 200 100 400 200 = (400, 200)
   \<and> (case ensure_watermark_fits 1000 500 200 100 950 (-30) of
        (x', y') \<Rightarrow> 0 \<le> x' \<and> x' \<le> 1000 - 200 \<and> 0 \<le> y' \<and> y' \<le> 500 - 100)"
proof -
  have h: "(200::int) \<le> 1000" "(100::int) \<le> 500" by simp_all
  have "case ensure_watermark_fits 1000 500 200 100 950 (-30) of
          (x', y') \<Rightarrow> 0 \<le> x' \<and> x' \<le> 1000 - 200 \<and> 0 \<le> y' \<and> y' \<le> 500 - 100"
    using clamp_within_bounds [OF h, of 950 "-30"] by (rule conjunct1)
  moreover have "ensure_watermark_fits 1000 500 200 100 950 (-30) = (800, 0)"
    "ensure_watermark_fits 1000 500 200 100 400 200 = (400, 200)"
    by (simp_all add: ensure_watermark_fits_def Let_def)
  moreover have "calculate_position 1000 500 200 100 ''center'' 0 0 0 0 = Inr (400, 200)"
    by (simp add: calculate_position_def dict_getitem_def dict_get_def positions_def Let_def)
  ultimately show ?thesis by simp
qed

text \<open>
  Claim C10. A position whose watermark box already lies inside the base image
  (\<open>0 \<le> x\<close>, \<open>x + w \<le> W\<close>, \<open>0 \<le> y\<close>, \<open>y + h \<le> H\<close>) is returned unchanged.
\<close>

theorem clamp_identity_in_bounds:
  assumes "0 \<le> x" and "x + w \<le> W" and "0 \<le> y" and "y + h \<le> H"
  shows "ensure_watermark_fits W H w h x y = (x, y)"
  using assms by (simp add: ensure_watermark_fits_def Let_def)

theorem clamp_identity_in_bounds_witness:
  "(0::int) \<le> 780 \<and> (780::int) + 200 \<le> 1000 \<and> (0::int) \<le> 380 \<and> (380::int) + 100 \<le> 500
   \<and> ensure_watermark_fits 1000 500 200 100 780 380 = (780, 380)"
proof -
  have h: "(0::int) \<le> 780" "(780::int) + 200 \<le> 1000" "(0::int) \<le> 380"
    "(380::int) + 100 \<le> 500"
    by simp_all
  show ?thesis using clamp_identity_in_bounds [OF h] by simp
qed

section \<open>Properties of the rounding\<close>

lemma expo_bounds:
  assumes "0 < x"
  shows "2 powi (expo x) \<le> x \<and> x < 2 powi (expo x + 1)"
proof (cases "1 \<le> x")
  case True
  define n where "n = \<lfloor>x\<rfloor>"
  have n: "0 < n" using True by (simp add: n_def)
  from bitlen_bounds [OF n] have lo: "2 ^ nat (bitlen n - 1) \<le> n" and hi: "n < 2 ^ nat (bitlen n)"
    by simp_all
  have b1: "1 \<le> bitlen n" using n by (simp add: bitlen_alt_def)
  have e: "expo x = bitlen n - 1" using True by (simp add: expo_def n_def)
  have "real_of_int (2 ^ nat (bitlen n - 1)) \<le> real_of_int n" using lo by (simp only: of_int_le_iff)
  also have "\<dots> \<le> x" by (simp add: n_def)
  finally have A: "2 powi (expo x) \<le> x" using b1 by (simp add: e power_int_def)
  have "n + 1 \<le> 2 ^ nat (bitlen n)" using hi by simp
  then have "real_of_int (n + 1) \<le> real_of_int (2 ^ nat (bitlen n))" by (simp only: of_int_le_iff)
  moreover have "x < real_of_int (n + 1)" by (simp add: n_def)
  ultimately have "x < 2 ^ nat (bitlen n)" by simp
  then have B: "x < 2 powi (expo x + 1)" using b1 by (simp add: e power_int_def)
  show ?thesis using A B by simp
next
  case False
  then have x1: "x < 1" by simp
  define m where "m = \<lceil>1 / x\<rceil>"
  have inv: "1 < 1 / x" using assms x1 by simp
  have m2: "2 \<le> m" using inv by (simp add: m_def)
  define b where "b = bitlen (m - 1)"
  have pos: "0 < m - 1" using m2 by simp
  from bitlen_bounds [OF pos] have lo: "2 ^ nat (b - 1) \<le> m - 1" and hi: "m - 1 < 2 ^ nat b"
    by (simp_all add: b_def)
  have b1: "1 \<le> b" using pos by (simp add: b_def bitlen_alt_def)
  have e: "expo x = - b" using False by (simp add: expo_def m_def b_def)
  have mb: "m \<le> 2 ^ nat b" using hi by simp
  have "1 / x \<le> real_of_int m" by (simp add: m_def)
  also have "\<dots> \<le> real_of_int (2 ^ nat b)" using mb by (simp only: of_int_le_iff)
  also have "\<dots> = 2 ^ nat b" by simp
  finally have "1 / x \<le> 2 ^ nat b" .
  then have "1 / 2 ^ nat b \<le> x" using assms by (simp add: field_simps)
  then have A: "2 powi (expo x) \<le> x" using b1 by (simp add: e power_int_def field_simps)
  have "(2::real) ^ nat (b - 1) = real_of_int (2 ^ nat (b - 1))" by simp
  also have "\<dots> \<le> real_of_int (m - 1)" using lo by (simp only: of_int_le_iff)
  also have "\<dots> < 1 / x" unfolding m_def by linarith
  finally have "2 ^ nat (b - 1) < 1 / x" .
  then have "x < 1 / 2 ^ nat (b - 1)" using assms by (simp add: field_simps)
  moreover have "2 powi (expo x + 1) = (1::real) / 2 ^ nat (b - 1)"
  proof (cases "b = 1")
    case True then show ?thesis by (simp add: e)
  next
    case False
    then have "- b + 1 < 0" using b1 by simp
    then show ?thesis using b1 by (simp add: e power_int_def field_simps nat_diff_distrib)
  qed
  ultimately have B: "x < 2 powi (expo x + 1)" by simp
  show ?thesis using A B by simp
qed

lemma powi2_less_iff: "(2::real) powi a < 2 powi b \<longleftrightarrow> a < b"
  by (metis linorder_not_le one_less_numeral_iff power_int_increasing power_int_strict_increasing
      semiring_norm(76) order_less_imp_le)

lemma powi2_le_iff: "(2::real) powi a \<le> 2 powi b \<longleftrightarrow> a \<le> b"
  by (metis linorder_not_less powi2_less_iff)

lemma expo_unique:
  assumes "0 < x" "2 powi a \<le> x" "x < 2 powi (a + 1)"
  shows "expo x = a"
proof -
  from expo_bounds [OF assms(1)] have lo: "2 powi (expo x) \<le> x" and hi: "x < 2 powi (expo x + 1)"
    by simp_all
  have "(2::real) powi (expo x) < 2 powi (a + 1)" using lo assms(3) by linarith
  then have "expo x < a + 1" by (simp only: powi2_less_iff)
  moreover have "(2::real) powi a < 2 powi (expo x + 1)" using hi assms(2) by linarith
  then have "a < expo x + 1" by (simp only: powi2_less_iff)
  ultimately show ?thesis by simp
qed

lemma expo_less: "0 < x \<Longrightarrow> x < 2 powi b \<Longrightarrow> expo x < b"
proof -
  assume "0 < x" "x < 2 powi b"
  with expo_bounds [of x] have "(2::real) powi (expo x) < 2 powi b" by linarith
  then show ?thesis by (simp only: powi2_less_iff)
qed

lemma expo_ge: "0 < x \<Longrightarrow> 2 powi a \<le> x \<Longrightarrow> a \<le> expo x"
proof -
  assume "0 < x" "2 powi a \<le> x"
  with expo_bounds [of x] have "(2::real) powi a < 2 powi (expo x + 1)" by linarith
  then have "a < expo x + 1" by (simp only: powi2_less_iff)
  then show ?thesis by simp
qed

lemma rne_of_int [simp]: "rne (of_int n) = n"
  by (simp add: rne_def)

lemma rne_floor_le: "\<lfloor>y\<rfloor> \<le> rne y"
  by (simp add: rne_def Let_def)

lemma rne_le_ceiling: "rne y \<le> \<lceil>y\<rceil>"
proof (cases "y = of_int \<lfloor>y\<rfloor>")
  case True
  then have "rne y = \<lfloor>y\<rfloor>" by (metis rne_of_int)
  then show ?thesis by (simp add: floor_le_ceiling)
next
  case False
  then have "\<lceil>y\<rceil> = \<lfloor>y\<rfloor> + 1" by (metis ceiling_altdef)
  then show ?thesis by (simp add: rne_def Let_def)
qed

lemma rne_le: "y \<le> of_int N \<Longrightarrow> rne y \<le> N"
  using rne_le_ceiling [of y] by (meson ceiling_le order_trans)

lemma rne_ge: "of_int N \<le> y \<Longrightarrow> N \<le> rne y"
  using rne_floor_le [of y] by (meson le_floor_iff order_trans)

lemma powi2_nonpos_int: "e \<le> 0 \<Longrightarrow> real_of_int n / 2 powi e = of_int (n * 2 ^ nat (- e))"
  by (simp add: power_int_def field_simps)

lemma powi2_nonneg_int: "0 \<le> e \<Longrightarrow> real_of_int n * 2 powi e = of_int (n * 2 ^ nat e)"
  by (simp add: power_int_def)

lemma rnd_exact:
  assumes "x / 2 powi (max (expo \<bar>x\<bar> - (int p - 1)) emin) = of_int k"
  shows "rnd p emin x = x"
proof (cases "x = 0")
  case True then show ?thesis by (simp add: rnd_def)
next
  case False
  let ?e = "max (expo \<bar>x\<bar> - (int p - 1)) emin"
  have "rnd p emin x = of_int (rne (x / 2 powi ?e)) * 2 powi ?e"
    using False by (simp add: rnd_def Let_def)
  also have "\<dots> = of_int k * 2 powi ?e" by (simp only: assms rne_of_int)
  also have "\<dots> = x" using assms by (simp add: field_simps)
  finally show ?thesis .
qed

lemma rnd_nonneg: "0 \<le> x \<Longrightarrow> 0 \<le> rnd p emin x"
proof -
  assume x: "0 \<le> x"
  have "0 \<le> rne (x / 2 powi e)" for e
    using x by (intro rne_ge) simp
  then show ?thesis by (simp add: rnd_def Let_def)
qed

lemma rnd_le_int:
  assumes x: "0 \<le> x" and le: "x \<le> of_int N" and N: "N < 2 ^ p" and emin: "emin \<le> 0"
  shows "rnd p emin x \<le> of_int N"
proof (cases "x = 0")
  case True then show ?thesis using x le by (simp add: rnd_def)
next
  case False
  then have pos: "0 < x" using x by simp
  let ?e = "max (expo \<bar>x\<bar> - (int p - 1)) emin"
  have "x < real_of_int (2 ^ p)" using le N by (metis of_int_less_iff order_le_less_trans)
  then have "x < 2 powi (int p)" by simp
  then have "expo x < int p" using pos by (rule expo_less [rotated]) 
  then have e0: "?e \<le> 0" using emin pos by simp
  have "x / 2 powi ?e \<le> real_of_int N / 2 powi ?e"
    using le by (simp add: divide_right_mono)
  also have "\<dots> = of_int (N * 2 ^ nat (- ?e))" by (rule powi2_nonpos_int [OF e0])
  finally have "rne (x / 2 powi ?e) \<le> N * 2 ^ nat (- ?e)" by (rule rne_le)
  then have "real_of_int (rne (x / 2 powi ?e)) \<le> real_of_int (N * 2 ^ nat (- ?e))"
    by (simp only: of_int_le_iff)
  then have "real_of_int (rne (x / 2 powi ?e)) * 2 powi ?e \<le> real_of_int (N * 2 ^ nat (- ?e)) * 2 powi ?e"
    by (simp add: mult_right_mono)
  also have "\<dots> = real_of_int N / 2 powi ?e * 2 powi ?e" by (simp only: powi2_nonpos_int [OF e0])
  also have "\<dots> = of_int N" by simp
  finally show ?thesis using False by (simp add: rnd_def Let_def)
qed

lemma rnd_ge_powi:
  assumes pos: "0 < x" and emin: "emin \<le> expo x - (int p - 1)" and p: "0 < p"
  shows "2 powi (expo x) \<le> rnd p emin x"
proof -
  let ?e = "expo x - (int p - 1)"
  have e: "max (expo x - (int p - 1)) emin = ?e" using emin by simp
  have r: "rnd p emin x = of_int (rne (x / 2 powi ?e)) * 2 powi ?e"
    using pos by (simp add: rnd_def Let_def e)
  have "(2::real) powi (int p - 1) = 2 powi (expo x) / 2 powi ?e"
    by (simp add: power_int_diff)
  also have "\<dots> \<le> x / 2 powi ?e"
    using expo_bounds [OF pos] by (simp add: divide_right_mono)
  finally have "real_of_int (2 ^ (p - 1)) \<le> x / 2 powi ?e"
    using p by (simp add: power_int_def nat_diff_distrib)
  then have "2 ^ (p - 1) \<le> rne (x / 2 powi ?e)" by (rule rne_ge)
  then have "real_of_int (2 ^ (p - 1)) \<le> real_of_int (rne (x / 2 powi ?e))"
    by (simp only: of_int_le_iff)
  then have "real_of_int (2 ^ (p - 1)) * 2 powi ?e \<le> real_of_int (rne (x / 2 powi ?e)) * 2 powi ?e"
    by (simp add: mult_right_mono)
  moreover have "real_of_int (2 ^ (p - 1)) * 2 powi ?e = 2 powi (expo x)"
  proof -
    have "real_of_int (2 ^ (p - 1)) = 2 powi (int p - 1)"
      using p by (simp add: power_int_def nat_diff_distrib)
    then have "real_of_int (2 ^ (p - 1)) * 2 powi ?e = 2 powi (int p - 1) * 2 powi ?e"
      by (simp only:)
    also have "\<dots> = 2 powi (int p - 1 + ?e)"
      by (rule power_int_add [symmetric]) simp
    also have "int p - 1 + ?e = expo x" by simp
    finally show ?thesis .
  qed
  ultimately show ?thesis by (simp only: r)
qed

lemma representable_exact:
  assumes p: "0 < p" and r: "representable p emin v"
  shows "rnd p emin v = v"
proof (cases "v = 0")
  case True then show ?thesis by (simp add: rnd_def)
next
  case False
  from r obtain m j where v: "v = of_int m * 2 powi j" and m: "\<bar>m\<bar> \<le> 2 ^ p" and j: "emin \<le> j"
    unfolding representable_def by blast
  let ?e = "max (expo \<bar>v\<bar> - (int p - 1)) emin"
  have vpos: "0 < \<bar>v\<bar>" using False by simp
  have absv: "\<bar>v\<bar> = of_int \<bar>m\<bar> * 2 powi j" by (simp add: v abs_mult)
  show ?thesis
  proof (cases "?e \<le> j")
    case True
    have "v / 2 powi ?e = of_int m * (2 powi j / 2 powi ?e)" by (simp add: v)
    also have "2 powi j / 2 powi ?e = (2::real) powi (j - ?e)" by (simp add: power_int_diff)
    also have "real_of_int m * 2 powi (j - ?e) = of_int (m * 2 ^ nat (j - ?e))"
      using True by (intro powi2_nonneg_int) simp
    finally show ?thesis by (rule rnd_exact)
  next
    case False
    then have e: "?e = expo \<bar>v\<bar> - (int p - 1)" and big: "j + int p \<le> expo \<bar>v\<bar>"
      using j by auto
    have "real_of_int \<bar>m\<bar> \<le> real_of_int (2 ^ p)" using m by (simp only: of_int_le_iff)
    then have "\<bar>v\<bar> \<le> real_of_int (2 ^ p) * 2 powi j"
      unfolding absv by (simp add: mult_right_mono)
    also have "real_of_int (2 ^ p) * 2 powi j = 2 powi (int p) * 2 powi j" by simp
    also have "\<dots> = 2 powi (int p + j)" by (rule power_int_add [symmetric]) simp
    finally have up: "\<bar>v\<bar> \<le> 2 powi (int p + j)" .
    have "(2::real) powi (j + int p) \<le> 2 powi (expo \<bar>v\<bar>)"
      using big by (simp only: powi2_le_iff)
    also have "\<dots> \<le> \<bar>v\<bar>" using expo_bounds [OF vpos] by simp
    finally have lo: "2 powi (j + int p) \<le> \<bar>v\<bar>" .
    have eqv: "\<bar>v\<bar> = 2 powi (int p + j)" using up lo by (simp add: add.commute)
    have "\<bar>v\<bar> < 2 powi (int p + j + 1)" unfolding eqv by (simp only: powi2_less_iff)
    then have ex: "expo \<bar>v\<bar> = int p + j"
      using expo_unique [OF vpos, of "int p + j"] eqv by simp
    have e': "?e = j + 1" using e ex by simp
    have "\<bar>v\<bar> / 2 powi ?e = \<bar>v\<bar> / 2 powi (j + 1)" by (simp only: e')
    also have "\<dots> = 2 powi (int p + j) / 2 powi (j + 1)" by (simp only: eqv)
    also have "\<dots> = 2 powi (int p - 1)" by (simp add: power_int_diff [symmetric])
    also have "\<dots> = real_of_int (2 ^ (p - 1))" using p by (simp add: power_int_def nat_diff_distrib)
    finally have a: "\<bar>v\<bar> / 2 powi ?e = real_of_int (2 ^ (p - 1))" .
    show ?thesis
    proof (cases "0 \<le> v")
      case True
      then have "v / 2 powi ?e = real_of_int (2 ^ (p - 1))" using a by simp
      then show ?thesis by (rule rnd_exact)
    next
      case False
      then have "\<bar>v\<bar> = - v" by simp
      then have "v / 2 powi ?e = - real_of_int (2 ^ (p - 1))" using a by (simp add: field_simps)
      then have "v / 2 powi ?e = real_of_int (- (2 ^ (p - 1)))" by simp
      then show ?thesis by (rule rnd_exact)
    qed
  qed
qed

lemma rnd_representable:
  assumes p: "0 < p"
  shows "representable p emin (rnd p emin y)"
proof (cases "y = 0")
  case True
  have "(0::real) = of_int 0 * 2 powi emin \<and> \<bar>0::int\<bar> \<le> 2 ^ p \<and> emin \<le> emin" by simp
  then show ?thesis unfolding representable_def using True by (auto simp: rnd_def)
next
  case False
  let ?e = "max (expo \<bar>y\<bar> - (int p - 1)) emin"
  have ypos: "0 < \<bar>y\<bar>" using False by simp
  have r: "rnd p emin y = of_int (rne (y / 2 powi ?e)) * 2 powi ?e"
    using False by (simp add: rnd_def Let_def)
  have "\<bar>y\<bar> < 2 powi (expo \<bar>y\<bar> + 1)" using expo_bounds [OF ypos] by simp
  also have "\<dots> \<le> 2 powi (int p + ?e)" by (simp only: powi2_le_iff)
  also have "\<dots> = 2 powi (int p) * 2 powi ?e" by (rule power_int_add) simp
  finally have "\<bar>y\<bar> / 2 powi ?e < 2 powi (int p)" by (simp add: field_simps)
  then have b: "\<bar>y / 2 powi ?e\<bar> \<le> real_of_int (2 ^ p)" by (simp add: abs_divide)
  have u: "y / 2 powi ?e \<le> real_of_int (2 ^ p)"
    and l: "real_of_int (- (2 ^ p)) \<le> y / 2 powi ?e"
    using abs_le_D1 [OF b] abs_le_D2 [OF b] by simp_all
  have "rne (y / 2 powi ?e) \<le> 2 ^ p" "- (2 ^ p) \<le> rne (y / 2 powi ?e)"
    by (rule rne_le [OF u], rule rne_ge [OF l])
  then have "\<bar>rne (y / 2 powi ?e)\<bar> \<le> 2 ^ p" by (simp add: abs_le_iff)
  moreover have "emin \<le> ?e" by simp
  ultimately show ?thesis unfolding representable_def using r by blast
qed

lemma representable_trunc:
  assumes emin: "emin \<le> 0" and r: "representable p emin v"
  shows "representable p emin (of_int (py_trunc v))"
proof -
  from r obtain m j where v: "v = of_int m * 2 powi j" and m: "\<bar>m\<bar> \<le> 2 ^ p" and j: "emin \<le> j"
    unfolding representable_def by blast
  show ?thesis
  proof (cases "0 \<le> j")
    case True
    then have "v = of_int (m * 2 ^ nat j)" unfolding v by (rule powi2_nonneg_int)
    then have "of_int (py_trunc v) = v" by (simp add: py_trunc_def)
    then show ?thesis using r by simp
  next
    case False
    then have "(2::real) powi j \<le> 2 powi 0" by (simp only: powi2_le_iff)
    then have "(2::real) powi j \<le> 1" by simp
    then have "\<bar>v\<bar> \<le> real_of_int \<bar>m\<bar>"
      by (simp add: v abs_mult mult_left_le)
    also have "\<dots> \<le> real_of_int (2 ^ p)" using m by (simp only: of_int_le_iff)
    finally have "\<bar>v\<bar> \<le> real_of_int (2 ^ p)" .
    then have "v \<le> real_of_int (2 ^ p)" "real_of_int (- (2 ^ p)) \<le> v" by (simp_all add: abs_le_iff)
    then have "py_trunc v \<le> 2 ^ p" "- (2 ^ p) \<le> py_trunc v"
      by (auto simp: py_trunc_def floor_le_iff le_floor_iff ceiling_le_iff le_ceiling_iff) 
    then have "\<bar>py_trunc v\<bar> \<le> 2 ^ p" by (simp add: abs_le_iff)
    moreover have "real_of_int (py_trunc v) = of_int (py_trunc v) * 2 powi 0" by simp
    ultimately show ?thesis unfolding representable_def using emin by blast
  qed
qed

lemma rnd_int_of_rnd:
  "0 < p \<Longrightarrow> emin \<le> 0 \<Longrightarrow>
     rnd p emin (of_int (py_trunc (rnd p emin y))) = of_int (py_trunc (rnd p emin y))"
  by (intro representable_exact representable_trunc rnd_representable)

lemma py_trunc_abs_le: "\<bar>real_of_int (py_trunc v)\<bar> \<le> \<bar>v\<bar>"
proof (cases "0 \<le> v")
  case True
  then have "0 \<le> \<lfloor>v\<rfloor>" by simp
  then have "\<bar>real_of_int \<lfloor>v\<rfloor>\<bar> = real_of_int \<lfloor>v\<rfloor>" by simp
  also have "\<dots> \<le> v" by simp
  finally show ?thesis using True by (simp add: py_trunc_def)
next
  case False
  then have "\<lceil>v\<rceil> \<le> 0" by (simp add: ceiling_le_iff)
  then have "\<bar>real_of_int \<lceil>v\<rceil>\<bar> = - real_of_int \<lceil>v\<rceil>" by simp
  also have "\<dots> \<le> - v" by simp
  finally show ?thesis using False by (simp add: py_trunc_def)
qed

text \<open>
  The overflow test of \<open>fl64\<close> by the exponent, for evaluation.
\<close>

lemma fl64_code [code]:
  "fl64 x = (let r = double x in if r \<noteq> 0 \<and> 1024 \<le> expo \<bar>r\<bar> then Infinite else Finite r)"
proof -
  have "(2 ^ 1024 \<le> \<bar>r\<bar>) = (r \<noteq> 0 \<and> 1024 \<le> expo \<bar>r\<bar>)" for r :: real
  proof (cases "r = 0")
    case True then show ?thesis by simp
  next
    case False
    then have pos: "0 < \<bar>r\<bar>" by simp
    show ?thesis
    proof
      assume "2 ^ 1024 \<le> \<bar>r\<bar>"
      then have "2 powi 1024 \<le> \<bar>r\<bar>" by simp
      then show "r \<noteq> 0 \<and> 1024 \<le> expo \<bar>r\<bar>" using False expo_ge [OF pos] by blast
    next
      assume a: "r \<noteq> 0 \<and> 1024 \<le> expo \<bar>r\<bar>"
      then have "(2::real) powi 1024 \<le> 2 powi (expo \<bar>r\<bar>)" by (simp only: powi2_le_iff)
      also have "\<dots> \<le> \<bar>r\<bar>" using expo_bounds [OF pos] by simp
      finally show "2 ^ 1024 \<le> \<bar>r\<bar>" by simp
    qed
  qed
  then show ?thesis by (simp add: fl64_def Let_def)
qed

section \<open>Properties of the Python arithmetic\<close>

lemma double_nonneg: "0 \<le> x \<Longrightarrow> 0 \<le> double x"
  by (simp add: double_def rnd_nonneg)

lemma double_le_int: "0 \<le> x \<Longrightarrow> x \<le> of_int N \<Longrightarrow> N < 2 ^ 53 \<Longrightarrow> double x \<le> of_int N"
  unfolding double_def by (rule rnd_le_int) simp_all

lemma float32_nonneg: "0 \<le> x \<Longrightarrow> 0 \<le> float32 x"
  by (simp add: float32_def rnd_nonneg)

lemma float32_le_int: "0 \<le> x \<Longrightarrow> x \<le> of_int N \<Longrightarrow> N < 2 ^ 24 \<Longrightarrow> float32 x \<le> of_int N"
  unfolding float32_def by (rule rnd_le_int) simp_all

lemma fl64_Finite: "\<bar>double x\<bar> < 2 ^ 1024 \<Longrightarrow> fl64 x = Finite (double x)"
  by (simp add: fl64_def Let_def)

lemma fl64_bounded:
  assumes "0 \<le> x" "x \<le> of_int N" "N < 2 ^ 53"
  shows "fl64 x = Finite (double x)"
proof -
  have "double x \<le> of_int N" using assms by (rule double_le_int)
  also have "real_of_int N < real_of_int (2 ^ 53)" using assms(3) by (simp only: of_int_less_iff)
  also have "real_of_int (2 ^ 53) < 2 ^ 1024" by simp
  finally have "double x < 2 ^ 1024" .
  moreover have "0 \<le> double x" using assms(1) by (rule double_nonneg)
  ultimately show ?thesis by (intro fl64_Finite) simp
qed

lemma double_of_int_exact: "\<bar>n\<bar> \<le> 2 ^ 53 \<Longrightarrow> double (of_int n) = of_int n"
proof -
  assume "\<bar>n\<bar> \<le> 2 ^ 53"
  then have "real_of_int n = of_int n * 2 powi 0 \<and> \<bar>n\<bar> \<le> 2 ^ 53 \<and> (- 1074 :: int) \<le> 0" by simp
  then have "representable 53 (- 1074) (of_int n)" unfolding representable_def by blast
  then show ?thesis unfolding double_def by (intro representable_exact) simp_all
qed

lemma float_of_int_small: "\<bar>n\<bar> \<le> 2 ^ 53 \<Longrightarrow> float_of_int n = Inr (of_int n)"
proof -
  assume n: "\<bar>n\<bar> \<le> 2 ^ 53"
  have d: "double (of_int n) = of_int n" using n by (rule double_of_int_exact)
  have "real_of_int \<bar>n\<bar> \<le> real_of_int (2 ^ 53)" using n by (simp only: of_int_le_iff)
  also have "real_of_int (2 ^ 53) < 2 ^ 1024" by simp
  finally have "\<bar>real_of_int n\<bar> < 2 ^ 1024" by simp
  then show ?thesis by (simp add: float_of_int_def fl64_def d Let_def)
qed

lemma float_of_int_trunc:
  assumes "fl64 y = Finite d"
  shows "float_of_int (py_trunc d) = Inr (of_int (py_trunc d))"
proof -
  from assms have d: "d = double y" and fin: "\<bar>d\<bar> < 2 ^ 1024"
    by (auto simp: fl64_def Let_def split: if_splits)
  have ex: "double (of_int (py_trunc d)) = of_int (py_trunc d)"
    unfolding d double_def by (rule rnd_int_of_rnd) simp_all
  have "\<bar>real_of_int (py_trunc d)\<bar> \<le> \<bar>d\<bar>" by (rule py_trunc_abs_le)
  then have "\<bar>real_of_int (py_trunc d)\<bar> < 2 ^ 1024" using fin by linarith
  then show ?thesis by (simp add: float_of_int_def fl64_def ex Let_def)
qed

lemma py_trunc_of_int [simp]: "py_trunc (of_int n) = n"
  by (simp add: py_trunc_def)

lemma int_of_product_one:
  "float_of_int n = Inr (of_int n) \<Longrightarrow> int_of_product n 1 = Inr n"
  by (auto simp: int_of_product_def int_mul_float_def float_of_int_def py_int_def
      split: fp.splits)

lemma int_of_quotient_one:
  "float_of_int n = Inr (of_int n) \<Longrightarrow> int_of_quotient n 1 = Inr n"
  by (auto simp: int_of_quotient_def int_div_float_def float_of_int_def py_int_def
      split: fp.splits)

lemma int_of_product_Inr:
  "int_of_product n x = Inr k \<Longrightarrow> \<exists>y d. fl64 y = Finite d \<and> k = py_trunc d"
  by (auto simp: int_of_product_def int_mul_float_def py_int_def split: sum.splits fp.splits)

lemma int_truediv_same: "w \<noteq> 0 \<Longrightarrow> int_truediv w w = Inr 1"
proof -
  assume "w \<noteq> 0"
  moreover have "fl64 1 = Finite 1" using float_of_int_small [of 1]
    by (simp add: float_of_int_def split: fp.splits)
  ultimately show ?thesis by (simp add: int_truediv_def)
qed

lemma fl64_zero [simp]: "fl64 0 = Finite 0"
  by (simp add: fl64_def double_def rnd_def)

lemma float_of_int_zero [simp]: "float_of_int 0 = Inr 0"
  by (simp add: float_of_int_def)

lemma int_of_product_zero [simp]: "int_of_product 0 x = Inr 0"
  by (simp add: int_of_product_def int_mul_float_def py_int_def py_trunc_def)

lemma int_of_quotient_zero: "x \<noteq> 0 \<Longrightarrow> int_of_quotient 0 x = Inr 0"
  by (simp add: int_of_quotient_def int_div_float_def py_int_def py_trunc_def)

section \<open>Properties of the target size\<close>

lemma int_truediv_image:
  assumes w: "image_dim w" and h: "image_dim h"
  shows "\<exists>r. int_truediv w h = Inr r \<and> 0 < r"
proof -
  let ?x = "real_of_int w / real_of_int h"
  have w0: "0 < w" "w < 2 ^ 31" and h0: "0 < h" "h < 2 ^ 31"
    using w h by (simp_all add: image_dim_def)
  have pos: "0 < ?x" using w0 h0 by simp
  have "1 \<le> real_of_int h" using h0 by simp
  then have "?x \<le> real_of_int w" using w0 by (simp add: field_simps mult_left_mono)
  then have fin: "fl64 ?x = Finite (double ?x)"
    using pos w0 by (intro fl64_bounded [of _ w]) simp_all
  have "real_of_int h < real_of_int (2 ^ 31)" using h0 by (simp only: of_int_less_iff)
  then have hh: "real_of_int h < 2 ^ 31" by simp
  have "1 \<le> real_of_int w" using w0 by simp
  then have "1 / 2 ^ 31 \<le> ?x" using hh h0 by (simp add: field_simps) 
  then have "2 powi (- 31) \<le> ?x" by (simp add: power_int_minus_divide)
  then have "- 31 \<le> expo ?x" using pos by (intro expo_ge)
  then have "2 powi (expo ?x) \<le> double ?x"
    unfolding double_def using pos by (intro rnd_ge_powi) simp_all
  moreover have "(0::real) < 2 powi (expo ?x)" by simp
  ultimately have "0 < double ?x" by linarith
  then show ?thesis using fin h0 by (simp add: int_truediv_def)
qed

lemma resize_dimensions_eq_truncated:
  "resize_dimensions base_width base_height wm_width wm_height scale
     = truncated_target_size base_width base_height wm_width wm_height scale"
proof (cases "int_of_product (min base_width base_height) scale")
  case (Inl e)
  then show ?thesis by (simp add: resize_dimensions_def truncated_target_size_def)
next
  case ws: (Inr ws)
  show ?thesis
  proof (cases "int_truediv wm_width wm_height")
    case (Inl e)
    then show ?thesis using ws by (simp add: resize_dimensions_def truncated_target_size_def)
  next
    case r: (Inr ratio)
    show ?thesis
    proof (cases "wm_width = wm_height")
      case False
      then show ?thesis using ws r
        by (auto simp: resize_dimensions_def truncated_target_size_def)
    next
      case True
      then have nz: "wm_height \<noteq> 0" using r by (auto simp: int_truediv_def)
      then have one: "ratio = 1" using r True by (simp add: int_truediv_same)
      from int_of_product_Inr [OF ws] obtain y d where "fl64 y = Finite d" "ws = py_trunc d"
        by blast
      then have f: "float_of_int ws = Inr (of_int ws)" using float_of_int_trunc by simp
      show ?thesis using ws r True
        by (simp add: resize_dimensions_def truncated_target_size_def one
            int_of_product_one [OF f] int_of_quotient_one [OF f])
    qed
  qed
qed

lemma resize_dimensions_zero_cases:
  assumes "int_of_product (min base_width base_height) scale = Inr 0"
  shows "resize_dimensions base_width base_height wm_width wm_height scale
     = (case int_truediv wm_width wm_height of
          Inl e \<Rightarrow> Inl e
        | Inr ratio \<Rightarrow> if wm_width > wm_height \<and> ratio = 0 then Inl ZeroDivisionError
                       else Inr (0, 0))"
  using assms
  by (auto simp: resize_dimensions_def int_of_quotient_def int_div_float_def py_int_def
      py_trunc_def split: sum.splits)

text \<open>
  Claim C6, as stated (the long edge and the short edge are rounded), fails: for a base
  image of 512 by 768, a watermark of 300 by 100 and the scale \<^verbatim>\<open>0.15\<close> the source
  truncates 76.8 to 76 and 25.33 to 25, where rounding gives 77 and 26.
\<close>

theorem resize_truncates_not_rounds:
  "resize_dimensions 512 768 300 100 (double (15 / 100)) = Inr (76, 25)
   \<and> spec_target_size 512 768 300 100 (double (15 / 100)) = (77, 26)
   \<and> resize_dimensions 512 768 300 100 (double (15 / 100))
       \<noteq> Inr (spec_target_size 512 768 300 100 (double (15 / 100)))"
  by code_simp

text \<open>
  Claim C6, amended. The size computed by the source is the one of the specification
  with every \<open>round\<close> replaced by the truncation \<^verbatim>\<open>int(...)\<close> of the product or
  quotient of doubles: reference is the smaller base dimension, the long edge is
  \<open>int (reference * scale)\<close>; if width \<open>\<ge>\<close> height the target width is the long edge and
  the target height is \<open>int (long edge / aspect ratio)\<close>, otherwise the target height is
  the long edge and the target width is \<open>int (long edge * aspect ratio)\<close>, with
  aspect ratio = width / height. This holds for every input, the exceptions of the
  arithmetic included (a height of 0, a value too large for a double). The strict
  comparison of the source gives the same size for a square watermark, whose aspect
  ratio is 1 and whose long edge, the integer part of a double, is itself a double.
\<close>

theorem resize_dimensions_truncated:
  "resize_dimensions base_width base_height wm_width wm_height scale
     = truncated_target_size base_width base_height wm_width wm_height scale"
  by (rule resize_dimensions_eq_truncated)

theorem resize_dimensions_truncated_witness:
  "resize_dimensions 512 768 300 100 (double (15 / 100)) = Inr (76, 25)
   \<and> resize_dimensions 35 35 7 3 1 = Inr (35, 14)
   \<and> resize_dimensions 1000 500 64 64 (double (1 / 10)) = Inr (50, 50)
   \<and> resize_dimensions 100 100 30 0 1 = Inl ZeroDivisionError"
proof -
  have "truncated_target_size 512 768 300 100 (double (15 / 100)) = Inr (76, 25)"
    "truncated_target_size 35 35 7 3 1 = Inr (35, 14)"
    "truncated_target_size 1000 500 64 64 (double (1 / 10)) = Inr (50, 50)"
    "truncated_target_size 100 100 30 0 1 = Inl ZeroDivisionError"
    by code_simp+
  then show ?thesis
    by (simp only: resize_dimensions_truncated simp_thms)
qed

text \<open>
  Claim C7, as stated (a long edge that rounds to 0 is raised to 1 pixel per dimension),
  fails: for a base image of 40 by 40 and the minimum scale \<^verbatim>\<open>0.01\<close> the long edge is
  \<open>int 0.4 = 0\<close> and the size computed for the resize is \<open>(0, 0)\<close>.
\<close>

theorem resize_dimensions_not_clamped:
  "resize_dimensions 40 40 200 100 (double (1 / 100)) = Inr (0, 0)
   \<and> \<not> (case resize_dimensions 40 40 200 100 (double (1 / 100)) of
           Inl e \<Rightarrow> False
         | Inr (new_width, new_height) \<Rightarrow> 1 \<le> new_width \<and> 1 \<le> new_height)"
  by code_simp

text \<open>
  Claim C7, amended. Whenever the long edge \<open>int (min (W, H) * scale)\<close> is 0, the
  computed resize dimensions are both 0: no minimum is applied to the computed size.
  A size that is computed at all is \<open>(0, 0)\<close>, and it is computed for every watermark
  whose width and height are dimensions of an image (the only other outcome is an
  exception of the division \<^verbatim>\<open>width / height\<close> or of the division by a ratio 0).
\<close>

theorem resize_dimensions_zero:
  assumes "int_of_product (min base_width base_height) scale = Inr 0"
  shows "(\<forall>sz. resize_dimensions base_width base_height wm_width wm_height scale = Inr sz
            \<longrightarrow> sz = (0, 0))
       \<and> (image_dim wm_width \<and> image_dim wm_height
            \<longrightarrow> resize_dimensions base_width base_height wm_width wm_height scale
                  = Inr (0, 0))"
proof (intro conjI allI impI)
  fix sz
  assume "resize_dimensions base_width base_height wm_width wm_height scale = Inr sz"
  then show "sz = (0, 0)"
    unfolding resize_dimensions_zero_cases [OF assms]
    by (auto split: sum.splits if_splits)
next
  assume "image_dim wm_width \<and> image_dim wm_height"
  then obtain r where "int_truediv wm_width wm_height = Inr r" "0 < r"
    using int_truediv_image by blast
  then show "resize_dimensions base_width base_height wm_width wm_height scale = Inr (0, 0)"
    unfolding resize_dimensions_zero_cases [OF assms] by simp
qed

theorem resize_dimensions_zero_witness:
  "int_of_product (min 40 40) (double (1 / 100)) = Inr 0
   \<and> image_dim 200 \<and> image_dim 100
   \<and> resize_dimensions 40 40 200 100 (double (1 / 100)) = Inr (0, 0)"
proof -
  have h: "int_of_product (min 40 40) (double (1 / 100)) = Inr 0"
    by code_simp
  have d: "image_dim 200 \<and> image_dim 100"
    by (simp add: image_dim_def)
  show ?thesis using h d resize_dimensions_zero [OF h, of 200 100] by simp
qed

section \<open>Properties of the opacity step\<close>

lemma clip8_zero [simp]: "clip8 0 = 0"
  by (simp add: clip8_def)

lemma clip8_id: "0 \<le> v \<Longrightarrow> v \<le> 255 \<Longrightarrow> uint (clip8 v) = v"
  by (simp add: clip8_def uint_word_of_int)

lemma uint_byte_bound: "uint (a::byte) \<le> 255"
  using uint_bounded [of a] by simp

lemma collect_map_Inr:
  "(\<And>x. x \<in> set xs \<Longrightarrow> f x = Inr (g x)) \<Longrightarrow> collect (map f xs) = Inr (map g xs)"
  by (induction xs) simp_all

lemma int_of_product_byte:
  assumes i: "0 \<le> i" "i \<le> 255" and o: "0 \<le> opacity" "opacity < 1"
  shows "int_of_product i opacity = Inr (py_trunc (double (real_of_int i * opacity)))"
    and "0 \<le> py_trunc (double (real_of_int i * opacity))"
    and "py_trunc (double (real_of_int i * opacity)) \<le> 255"
proof -
  let ?x = "real_of_int i * opacity"
  have f: "float_of_int i = Inr (of_int i)" using i by (intro float_of_int_small) simp
  have i0: "0 \<le> real_of_int i" using i by simp
  have x0: "0 \<le> ?x" using i0 o by (rule_tac mult_nonneg_nonneg)
  have "?x \<le> real_of_int i * 1" using i0 o by (intro mult_left_mono) simp_all
  also have "\<dots> \<le> real_of_int 255" using i by (simp only: mult_1_right of_int_le_iff)
  finally have x255: "?x \<le> real_of_int 255" .
  have fin: "fl64 ?x = Finite (double ?x)" using x0 x255 by (rule fl64_bounded) simp
  show "int_of_product i opacity = Inr (py_trunc (double ?x))"
    by (simp add: int_of_product_def int_mul_float_def f fin py_int_def)
  have d0: "0 \<le> double ?x" using x0 by (rule double_nonneg)
  have d255: "double ?x \<le> real_of_int 255" using x0 x255 by (rule double_le_int) simp
  show "0 \<le> py_trunc (double ?x)" using d0 by (simp add: py_trunc_def)
  show "py_trunc (double ?x) \<le> 255" using d0 d255 by (simp add: py_trunc_def floor_le_iff)
qed

lemma point_opacity:
  assumes o: "0 \<le> opacity" "opacity < 1"
  shows "point band (\<lambda>p. int_of_product p opacity)
       = Inr (\<lambda>x y. clip8 (py_trunc (double (real_of_int (uint (band x y)) * opacity))))"
proof -
  let ?g = "\<lambda>i::nat. py_trunc (double (real_of_int (int i) * opacity))"
  have "collect (map (\<lambda>i. int_of_product (int i) opacity) [0..<256]) = Inr (map ?g [0..<256])"
    using o by (intro collect_map_Inr int_of_product_byte(1)) auto
  moreover have "map ?g [0..<256] ! unat b = py_trunc (double (real_of_int (uint b) * opacity))"
    for b :: byte
  proof -
    have "unat b < 256" using unsigned_less [of b, where 'a = nat] by simp
    then have "map ?g [0..<256] ! unat b = ?g (unat b)" by simp
    then show ?thesis by (simp only: uint_nat)
  qed
  ultimately show ?thesis by (simp add: point_def)
qed

lemma putalpha_sel:
  "putalpha im band
     = im\<lparr>getpixel := (\<lambda>x y. Pixel (red (getpixel im x y)) (green (getpixel im x y))
                                   (blue (getpixel im x y)) (band x y))\<rparr>"
proof -
  have "(\<lambda>x y. case getpixel im x y of Pixel r g b a \<Rightarrow> Pixel r g b (band x y))
      = (\<lambda>x y. Pixel (red (getpixel im x y)) (green (getpixel im x y))
                       (blue (getpixel im x y)) (band x y))"
    by (intro ext) (simp split: pixel.splits)
  then show ?thesis by (simp only: putalpha_def)
qed

lemma apply_opacity_Inr:
  assumes o: "0 \<le> opacity" "opacity < 1"
  shows "apply_opacity opacity wm
       = Inr (wm\<lparr>getpixel := (\<lambda>x y.
            Pixel (red (getpixel wm x y)) (green (getpixel wm x y)) (blue (getpixel wm x y))
              (clip8 (py_trunc (double
                 (real_of_int (uint (alpha (getpixel wm x y))) * opacity)))))\<rparr>)"
  using o by (simp add: apply_opacity_def point_opacity [OF o] split_alpha_def putalpha_sel Let_def)

lemma double_zero [simp]: "double 0 = 0"
  by (simp add: double_def rnd_def)

lemma apply_opacity_zero:
  "apply_opacity 0 wm
     = Inr (wm\<lparr>getpixel := (\<lambda>x y.
            Pixel (red (getpixel wm x y)) (green (getpixel wm x y)) (blue (getpixel wm x y)) 0)\<rparr>)"
  using apply_opacity_Inr [of 0 wm] by (simp add: py_trunc_def)

section \<open>Properties of the image operations\<close>

lemma paste_transparent:
  assumes "\<And>x y. alpha (getpixel m x y) = 0"
  shows "paste world (new_rgba sz) im pos m = new_rgba sz"
  by (cases pos) (simp add: paste_def assms new_rgba_def Let_def cong: if_cong)

lemma composite_transparent:
  "mode b = RGBA \<Longrightarrow> w = width b \<Longrightarrow> h = height b
     \<Longrightarrow> alpha_composite world b (new_rgba (w, h)) = Inr b"
  by (simp add: alpha_composite_def new_rgba_def Let_def)

lemma convert_rgba_shape [simp]:
  "mode (convert_rgba b) = RGBA" "width (convert_rgba b) = width b"
  "height (convert_rgba b) = height b"
  by (simp_all add: convert_rgba_def split: mode.splits)

lemma alpha_composite_Inr:
  "alpha_composite world a b = Inr r
     \<Longrightarrow> mode r = RGBA \<and> width r = width a \<and> height r = height a"
  by (auto simp: alpha_composite_def split: if_splits)

lemma tensor_to_pil_Inr:
  "tensor_to_pil img = Inr base \<Longrightarrow>
     0 < batch img \<and> width base = int (cols img) \<and> height base = int (rows img)
     \<and> (channels img = 2 \<or> channels img = 3 \<or> channels img = 4)"
  by (auto simp: tensor_to_pil_def fromarray_def split: if_splits)

lemma to_rgba_size:
  "width (if mode b \<noteq> RGBA then convert_rgba b else b) = width b"
  "height (if mode b \<noteq> RGBA then convert_rgba b else b) = height b"
  "mode (if mode b \<noteq> RGBA then convert_rgba b else b) = RGBA"
  by (simp_all add: convert_rgba_def split: mode.splits)

lemma pil_to_tensor_shape:
  assumes "mode r = RGBA"
  shows "batch (pil_to_tensor (if ch = 3 then convert_rgb r else r)) = 1"
    "channels (pil_to_tensor (if ch = 3 then convert_rgb r else r)) = (if ch = 3 then 3 else 4)"
    "rows (pil_to_tensor (if ch = 3 then convert_rgb r else r)) = nat (height r)"
    "cols (pil_to_tensor (if ch = 3 then convert_rgb r else r)) = nat (width r)"
  using assms by (auto simp: pil_to_tensor_def convert_rgb_def bands_def)

lemma float32_byte_range:
  "0 \<le> float32 (real (unat (k::byte)) / 255) \<and> float32 (real (unat k) / 255) \<le> 1"
proof -
  have "unat k < 256" using unsigned_less [of k, where 'a = nat] by simp
  then have "unat k \<le> 255" by simp
  then have le: "real (unat k) \<le> real 255" by (simp only: of_nat_le_iff)
  have ge: "0 \<le> real (unat k)" by (rule of_nat_0_le_iff)
  have a: "0 \<le> real (unat k) / 255" using ge by (rule divide_nonneg_nonneg) simp
  have "real (unat k) / 255 \<le> real 255 / 255" using le by (rule divide_right_mono) simp
  then have b: "real (unat k) / 255 \<le> real_of_int 1" by simp
  have "float32 (real (unat k) / 255) \<le> real_of_int 1" using a b by (rule float32_le_int) simp
  then show ?thesis using float32_nonneg [OF a] by simp
qed

lemma item_pil_to_tensor_range:
  "0 \<le> item (pil_to_tensor r) b y x c \<and> item (pil_to_tensor r) b y x c \<le> 1"
  using float32_byte_range by (simp add: pil_to_tensor_def)

lemma channel_cases:
  "channel RGB 0 (Pixel r g b a) = r" "channel RGB (Suc 0) (Pixel r g b a) = g"
  "channel RGB 2 (Pixel r g b a) = b"
  "channel RGBA 0 (Pixel r g b a) = r" "channel RGBA (Suc 0) (Pixel r g b a) = g"
  "channel RGBA 2 (Pixel r g b a) = b" "channel RGBA 3 (Pixel r g b a) = a"
  by (simp_all add: channel_def)

lemma normalized_max_le_one: "normalized img \<Longrightarrow> max_le_one img"
  by (simp add: normalized_def max_le_one_def)

lemma body_opacity_zero:
  "apply_watermark_body world img path position 0 scale mx my ox oy = Inr out \<Longrightarrow>
   out = img \<or> (\<exists>base. tensor_to_pil img = Inr base
      \<and> out = pil_to_tensor
                (if channels img = 3
                 then convert_rgb (if mode base \<noteq> RGBA then convert_rgba base else base)
                 else (if mode base \<noteq> RGBA then convert_rgba base else base)))"
  unfolding apply_watermark_body_def Let_def
  by (auto split: sum.splits if_splits prod.splits
      simp: apply_opacity_zero paste_transparent composite_transparent)

lemma roundtrip_tensor:
  fixes base
  assumes n: "normalized img" and b: "tensor_to_pil img = Inr base"
    and ch: "channels img = 3 \<or> channels img = 4"
  defines "out \<equiv> pil_to_tensor (if channels img = 3
              then convert_rgb (if mode base \<noteq> RGBA then convert_rgba base else base)
              else (if mode base \<noteq> RGBA then convert_rgba base else base))"
  shows "batch out = 1 \<and> rows out = rows img \<and> cols out = cols img
     \<and> channels out = channels img
     \<and> (\<forall>y < rows img. \<forall>x < cols img. \<forall>c < channels img.
           item out 0 y x c = quantized (item img 0 y x c))"
proof -
  have m: "to_uint8 img = (\<lambda>y x c. astype_uint8 (float32 (item img 0 y x c * 255)))"
    using normalized_max_le_one [OF n] by (simp add: to_uint8_def)
  from ch show ?thesis
  proof
    assume three: "channels img = 3"
    then have base: "base = \<lparr>mode = RGB, width = int (cols img), height = int (rows img),
        getpixel = (\<lambda>x y. Pixel (to_uint8 img (nat y) (nat x) 0)
                      (to_uint8 img (nat y) (nat x) 1) (to_uint8 img (nat y) (nat x) 2) 255)\<rparr>"
      using b by (auto simp: tensor_to_pil_def fromarray_def split: if_splits)
    have c3: "c < 3 \<Longrightarrow> c = 0 \<or> c = Suc 0 \<or> c = 2" for c :: nat by arith
    show ?thesis
      unfolding out_def using three
      by (auto simp: base m pil_to_tensor_def convert_rgb_def convert_rgba_def channel_cases
          bands_def quantized_def dest!: c3)
  next
    assume four: "channels img = 4"
    then have base: "base = \<lparr>mode = RGBA, width = int (cols img), height = int (rows img),
        getpixel = (\<lambda>x y. Pixel (to_uint8 img (nat y) (nat x) 0)
                      (to_uint8 img (nat y) (nat x) 1) (to_uint8 img (nat y) (nat x) 2)
                      (to_uint8 img (nat y) (nat x) 3))\<rparr>"
      using b by (auto simp: tensor_to_pil_def fromarray_def split: if_splits)
    have c4: "c < 4 \<Longrightarrow> c = 0 \<or> c = Suc 0 \<or> c = 2 \<or> c = 3" for c :: nat by arith
    show ?thesis
      unfolding out_def using four
      by (auto simp: base m pil_to_tensor_def convert_rgb_def convert_rgba_def channel_cases
          bands_def quantized_def dest!: c4)
  qed
qed

lemma opacity_zero_output:
  fixes world path position scale mx my ox oy
  assumes n: "normalized img" and ch: "channels img = 3 \<or> channels img = 4"
  defines "out \<equiv> apply_watermark world img path position 0 scale mx my ox oy"
  shows "out = img
     \<or> (batch out = 1 \<and> rows out = rows img \<and> cols out = cols img
        \<and> channels out = channels img
        \<and> (\<forall>y < rows img. \<forall>x < cols img. \<forall>c < channels img.
              item out 0 y x c = quantized (item img 0 y x c)))"
proof (cases "apply_watermark_body world img path position 0 scale mx my ox oy")
  case (Inl e)
  then have "out = img" by (simp add: out_def apply_watermark_def)
  then show ?thesis by simp
next
  case (Inr r)
  then have o: "out = r" by (simp add: out_def apply_watermark_def)
  from body_opacity_zero [OF Inr] show ?thesis
  proof (elim disjE exE conjE)
    assume "r = img" then show ?thesis using o by simp
  next
    fix base assume b: "tensor_to_pil img = Inr base"
      and r: "r = pil_to_tensor (if channels img = 3
              then convert_rgb (if mode base \<noteq> RGBA then convert_rgba base else base)
              else (if mode base \<noteq> RGBA then convert_rgba base else base))"
    note rt = roundtrip_tensor [OF n b ch, folded r]
    show ?thesis using rt unfolding o by (rule disjI2)
  qed
qed

lemma tensor_to_pil_first:
  "0 < batch img \<Longrightarrow> 0 < n \<Longrightarrow> tensor_to_pil (rest_replaced img n rest) = tensor_to_pil img"
  by (auto simp: tensor_to_pil_def rest_replaced_def to_uint8_def max_le_one_def)

lemma channels_rest_replaced: "channels (rest_replaced img n rest) = channels img"
  by (simp add: rest_replaced_def)

lemma body_first_only:
  assumes "0 < batch img" "0 < n" "fs world path = Readable wm"
  shows "apply_watermark_body world (rest_replaced img n rest) path position opacity scale
            mx my ox oy
       = apply_watermark_body world img path position opacity scale mx my ox oy"
  using assms(3)
  by (simp add: apply_watermark_body_def tensor_to_pil_first [OF assms(1,2)]
      channels_rest_replaced os_path_exists_def image_open_rgba_def cong: sum.case_cong)

lemma success_result:
  assumes rd: "fs world path = Readable wm"
    and ok: "apply_watermark_body world img path position opacity scale mx my ox oy = Inr out"
  shows "\<exists>base t r. tensor_to_pil img = Inr base
      \<and> alpha_composite world (if mode base \<noteq> RGBA then convert_rgba base else base) t = Inr r
      \<and> out = pil_to_tensor (if channels img = 3 then convert_rgb r else r)"
  using ok rd unfolding apply_watermark_body_def Let_def
  by (auto simp: os_path_exists_def image_open_rgba_def
      split: sum.splits if_splits prod.splits)

lemma success_shape:
  assumes ch: "channels img = 3 \<or> channels img = 4"
    and rd: "fs world path = Readable wm"
    and ok: "apply_watermark_body world img path position opacity scale mx my ox oy = Inr out"
  shows "batch out = 1 \<and> channels out = channels img \<and> rows out = rows img
     \<and> cols out = cols img \<and> 0 < batch img
     \<and> (\<forall>b y x c. 0 \<le> item out b y x c \<and> item out b y x c \<le> 1)"
proof -
  from success_result [OF rd ok] obtain base t r where
    b: "tensor_to_pil img = Inr base"
    and c: "alpha_composite world (if mode base \<noteq> RGBA then convert_rgba base else base) t
              = Inr r"
    and o: "out = pil_to_tensor (if channels img = 3 then convert_rgb r else r)"
    by blast
  note tb = tensor_to_pil_Inr [OF b]
  note ac = alpha_composite_Inr [OF c]
  from ac tb have "mode r = RGBA" "nat (height r) = rows img" "nat (width r) = cols img"
    by (simp_all add: to_rgba_size)
  then have "batch out = 1 \<and> channels out = channels img \<and> rows out = rows img
     \<and> cols out = cols img \<and> 0 < batch img"
    using pil_to_tensor_shape [of r "channels img"] o tb ch by auto
  then show ?thesis using item_pil_to_tensor_range o by blast
qed

section \<open>The concrete input, evaluated\<close>

lemma example_bytes:
  "astype_uint8 (float32 (255 / 2)) = 127"
  by code_simp

lemma example_to_pil:
  "tensor_to_pil example_image
     = Inr \<lparr>mode = RGB, width = 6, height = 4, getpixel = (\<lambda>x y. Pixel 127 127 127 255)\<rparr>"
  by (simp add: tensor_to_pil_def fromarray_def to_uint8_def max_le_one_def example_bytes
      example_image_def)

lemma example_normalized: "normalized example_image"
  by (simp add: normalized_def example_image_def)

lemma example_sizes:
  "resize_dimensions 6 4 4 2 (double (1 / 10)) = Inr (0, 0)"
  "resize_dimensions 6 4 4 2 1 = Inr (4, 2)"
  by code_simp+

lemma example_value_error:
  "apply_watermark_body example_world example_image ''wm.png'' ''bottom_right''
     (double (8 / 10)) (double (1 / 10)) 20 20 0 0 = Inl ValueError"
  by (simp add: apply_watermark_body_def example_to_pil os_path_exists_def image_open_rgba_def
      convert_rgba_def example_sizes resize_def example_world_def
      example_watermark_def Let_def)

lemma example_opacity_range: "0 \<le> double (8 / 10)" "double (8 / 10) < 1"
  by code_simp+

lemma example_alpha:
  "clip8 (py_trunc (double (real_of_int (uint (255::byte)) * double (8 / 10)))) = 204"
  "clip8 (py_trunc (double (real_of_int (uint (128::byte)) * double (8 / 10)))) = 102"
  by code_simp+

lemma example_opacity_applied:
  "apply_opacity (double (8 / 10)) example_watermark
     = Inr \<lparr>mode = RGBA, width = 4, height = 2,
            getpixel = (\<lambda>x y. Pixel 200 100 50 (if x < 2 then 204 else 102))\<rparr>"
proof -
  have "(\<lambda>x y. Pixel (red (getpixel example_watermark x y)) (green (getpixel example_watermark x y))
              (blue (getpixel example_watermark x y))
              (clip8 (py_trunc (double
                 (real_of_int (uint (alpha (getpixel example_watermark x y))) * double (8 / 10))))))
      = (\<lambda>x y. Pixel 200 100 50 (if x < 2 then 204 else 102))"
  proof (intro ext)
    fix x y :: int
    have px: "getpixel example_watermark x y = Pixel 200 100 50 (if x < 2 then 255 else 128)"
      by (simp add: example_watermark_def)
    show "Pixel (red (getpixel example_watermark x y)) (green (getpixel example_watermark x y))
              (blue (getpixel example_watermark x y))
              (clip8 (py_trunc (double
                 (real_of_int (uint (alpha (getpixel example_watermark x y))) * double (8 / 10)))))
        = Pixel 200 100 50 (if x < 2 then 204 else 102)"
      by (cases "x < 2") (simp_all only: px pixel.sel if_True if_False example_alpha)
  qed
  then show ?thesis
    unfolding apply_opacity_Inr [OF example_opacity_range]
    by (simp add: example_watermark_def)
qed

lemma body_steps:
  assumes "tensor_to_pil img = Inr base"
    and "fs world path = Readable wm0"
    and "resize_dimensions (width base) (height base)
           (width (convert_rgba wm0)) (height (convert_rgba wm0)) scale = Inr sz"
    and "resize world (convert_rgba wm0) sz = Inr wm1"
    and "calculate_position (width base) (height base) (width wm1) (height wm1)
           position mx my ox oy = Inr p"
    and "apply_opacity opacity wm1 = Inr wm2"
  shows "apply_watermark_body world img path position opacity scale mx my ox oy
       = (case alpha_composite world
                 (if mode base \<noteq> RGBA then convert_rgba base else base)
                 (paste world (new_rgba (width base, height base)) wm2
                    (ensure_watermark_fits (width base) (height base)
                       (width wm1) (height wm1) (fst p) (snd p)) wm2) of
            Inl e \<Rightarrow> Inl e
          | Inr result \<Rightarrow>
              Inr (pil_to_tensor (if channels img = 3 then convert_rgb result else result)))"
  using assms
  by (simp add: apply_watermark_body_def os_path_exists_def image_open_rgba_def Let_def
      to_rgba_size split: prod.splits cong: sum.case_cong)

lemma example_body:
  "apply_watermark_body example_world example_image ''wm.png'' ''center''
      (double (8 / 10)) 1 0 0 0 0
   = (case alpha_composite example_world
             \<lparr>mode = RGBA, width = 6, height = 4, getpixel = (\<lambda>x y. Pixel 127 127 127 255)\<rparr>
             (paste example_world (new_rgba (6, 4))
                \<lparr>mode = RGBA, width = 4, height = 2,
                  getpixel = (\<lambda>x y. Pixel 200 100 50 (if x < 2 then 204 else 102))\<rparr>
                (1, 1)
                \<lparr>mode = RGBA, width = 4, height = 2,
                  getpixel = (\<lambda>x y. Pixel 200 100 50 (if x < 2 then 204 else 102))\<rparr>) of
        Inl e \<Rightarrow> Inl e
      | Inr result \<Rightarrow> Inr (pil_to_tensor (convert_rgb result)))"
proof -
  have f: "fs example_world ''wm.png'' = Readable example_watermark"
    by (simp add: example_world_def)
  have c: "convert_rgba example_watermark = example_watermark"
    by (simp add: convert_rgba_def example_watermark_def)
  have rd: "resize_dimensions
      (width \<lparr>mode = RGB, width = 6, height = 4, getpixel = (\<lambda>x y. Pixel 127 127 127 255)\<rparr>)
      (height \<lparr>mode = RGB, width = 6, height = 4, getpixel = (\<lambda>x y. Pixel 127 127 127 255)\<rparr>)
      (width (convert_rgba example_watermark)) (height (convert_rgba example_watermark)) 1
      = Inr (4, 2)"
    unfolding c by (simp add: example_sizes example_watermark_def)
  have rs: "resize example_world (convert_rgba example_watermark) (4, 2) = Inr example_watermark"
    unfolding c by (simp add: resize_def example_watermark_def)
  have cp: "calculate_position
      (width \<lparr>mode = RGB, width = 6, height = 4, getpixel = (\<lambda>x y. Pixel 127 127 127 255)\<rparr>)
      (height \<lparr>mode = RGB, width = 6, height = 4, getpixel = (\<lambda>x y. Pixel 127 127 127 255)\<rparr>)
      (width example_watermark) (height example_watermark) ''center'' 0 0 0 0 = Inr (1, 1)"
    by (simp add: calculate_position_def dict_getitem_def dict_get_def positions_def
        example_watermark_def)
  show ?thesis
    unfolding body_steps [OF example_to_pil f rd rs cp example_opacity_applied]
    by (simp add: convert_rgba_def ensure_watermark_fits_def example_watermark_def
        example_image_def cong: sum.case_cong)
qed

lemma example_success:
  "\<not> isl (apply_watermark_body example_world example_image ''wm.png'' ''center''
            (double (8 / 10)) 1 0 0 0 0)"
  unfolding example_body by (simp add: alpha_composite_def paste_def new_rgba_def)

lemma example_pixels:
  "item (apply_watermark example_world example_image ''wm.png'' ''center''
            (double (8 / 10)) 1 0 0 0 0) 0 0 0 0 = float32 (127 / 255)"
  "item (apply_watermark example_world example_image ''wm.png'' ''center''
            (double (8 / 10)) 1 0 0 0 0) 0 2 2 0 = float32 (148 / 255)"
  unfolding apply_watermark_def example_body
  by (simp_all add: alpha_composite_def paste_def new_rgba_def convert_rgb_def
      pil_to_tensor_def channel_def example_world_def example_blend_def)

section \<open>Quantization\<close>

lemma rne_error: "\<bar>real_of_int (rne y) - y\<bar> \<le> 1 / 2"
proof -
  have "real_of_int \<lfloor>y\<rfloor> \<le> y" "y < real_of_int \<lfloor>y\<rfloor> + 1" by linarith+
  then show ?thesis by (auto simp: rne_def Let_def abs_le_iff)
qed

lemma rnd_error:
  assumes pos: "0 < x" and b: "x < 2 powi b" and emin: "emin \<le> b - int p"
  shows "\<bar>rnd p emin x - x\<bar> \<le> 2 powi (b - int p) / 2"
proof -
  let ?e = "max (expo \<bar>x\<bar> - (int p - 1)) emin"
  have "expo x < b" using pos b by (rule expo_less)
  then have e: "?e \<le> b - int p" using emin pos by simp
  have r: "rnd p emin x = of_int (rne (x / 2 powi ?e)) * 2 powi ?e"
    using pos by (simp add: rnd_def Let_def)
  have "rnd p emin x - x = (of_int (rne (x / 2 powi ?e)) - x / 2 powi ?e) * 2 powi ?e"
    unfolding r by (simp add: field_simps)
  then have "\<bar>rnd p emin x - x\<bar> = \<bar>of_int (rne (x / 2 powi ?e)) - x / 2 powi ?e\<bar> * 2 powi ?e"
    by (simp add: abs_mult)
  also have "\<dots> \<le> 1 / 2 * 2 powi ?e"
    by (intro mult_right_mono rne_error) simp
  also have "\<dots> \<le> 1 / 2 * 2 powi (b - int p)"
    using e by (intro mult_left_mono) (simp_all add: powi2_le_iff)
  finally show ?thesis by simp
qed

lemma float32_error:
  assumes "0 \<le> x" and "x < 2 powi b" and "- 149 \<le> b - 24"
  shows "\<bar>float32 x - x\<bar> \<le> 2 powi (b - 24) / 2"
proof (cases "x = 0")
  case True then show ?thesis by (simp add: float32_def rnd_def)
next
  case False
  then have "0 < x" using assms(1) by simp
  then show ?thesis unfolding float32_def using assms(2,3) rnd_error [of x b "- 149" 24] by simp
qed

lemma quantized_error:
  assumes v: "0 \<le> v" "v \<le> 1"
  shows "\<bar>quantized v - v\<bar> < 1 / 255 + 1 / 2 ^ 23"
proof -
  let ?x = "v * 255"
  let ?f = "float32 ?x"
  let ?k = "py_trunc ?f"
  have x0: "0 \<le> ?x" using v by simp
  have x255: "?x \<le> real_of_int 255" using v by simp
  have f0: "0 \<le> ?f" using x0 by (rule float32_nonneg)
  have f255: "?f \<le> real_of_int 255" using x0 x255 by (rule float32_le_int) simp
  have k: "?k = \<lfloor>?f\<rfloor>" using f0 by (simp add: py_trunc_def)
  have k0: "0 \<le> ?k" using f0 by (simp add: k)
  have k255: "?k \<le> 255" using f255 by (simp add: k floor_le_iff)
  have u: "uint (astype_uint8 ?f) = ?k"
    using k0 k255 by (simp add: astype_uint8_def uint_word_of_int)
  have "real (unat (astype_uint8 ?f)) = real_of_int (uint (astype_uint8 ?f))"
    by (simp only: uint_nat of_int_of_nat_eq)
  then have ru: "real (unat (astype_uint8 ?f)) = real_of_int ?k" by (simp only: u)
  have q: "quantized v = float32 (real_of_int ?k / 255)"
    unfolding quantized_def by (simp only: ru)
  have "?x < 2 powi 8" using x255 by simp
  then have e1: "\<bar>?f - ?x\<bar> \<le> 2 powi (8 - 24) / 2" using x0 by (intro float32_error) simp_all
  have kf: "real_of_int ?k \<le> ?f" "?f < real_of_int ?k + 1" unfolding k by linarith+
  let ?y = "real_of_int ?k / 255"
  have y0: "0 \<le> ?y" using k0 by simp
  have "?y \<le> 1" using k255 by simp
  then have "?y < 2 powi 1" by simp
  then have e2: "\<bar>float32 ?y - ?y\<bar> \<le> 2 powi (1 - 24) / 2" using y0 by (intro float32_error) simp_all
  have p1: "(2::real) powi (8 - 24) / 2 = 1 / 2 ^ 17" by (simp add: power_int_minus_divide)
  have p2: "(2::real) powi (1 - 24) / 2 = 1 / 2 ^ 24" by (simp add: power_int_minus_divide)
  have "\<bar>real_of_int ?k - ?x\<bar> < 1 + 1 / 2 ^ 17"
    using e1 kf unfolding p1 by linarith
  then have "\<bar>real_of_int ?k - ?x\<bar> / 255 < (1 + 1 / 2 ^ 17) / 255"
    by (rule divide_strict_right_mono) simp
  moreover have "\<bar>?y - v\<bar> = \<bar>real_of_int ?k - ?x\<bar> / 255"
  proof -
    have "?y - v = (real_of_int ?k - ?x) / 255" by (simp add: field_simps)
    then show ?thesis by (simp only: abs_divide)
  qed
  ultimately have a: "\<bar>?y - v\<bar> < (1 + 1 / 2 ^ 17) / 255" by (simp only:)
  have "\<bar>quantized v - v\<bar> \<le> \<bar>float32 ?y - ?y\<bar> + \<bar>?y - v\<bar>" unfolding q by linarith
  also have "\<dots> < 1 / 2 ^ 24 + (1 + 1 / 2 ^ 17) / 255" using e2 a unfolding p2 by linarith
  also have "\<dots> < 1 / 255 + 1 / 2 ^ 23" by simp
  finally show ?thesis .
qed

section \<open>Properties of the node's operation\<close>

text \<open>
  Claim C1. Whatever the input tensor and the parameters: if the watermark path does not
  exist, or the file exists and cannot be decoded, or an exception leaves the body (from
  the conversion of the input, the resize, the positioning or the blending), then
  \<^verbatim>\<open>apply_watermark\<close> returns its input tensor unchanged. Its result is always a
  tensor: the input, or the tensor the body computed.
\<close>

theorem apply_watermark_fail_soft:
  "(fs world path = Missing \<longrightarrow>
      apply_watermark world img path position opacity scale mx my ox oy = img)
   \<and> (fs world path = Unreadable \<longrightarrow>
      apply_watermark world img path position opacity scale mx my ox oy = img)
   \<and> (\<forall>e. apply_watermark_body world img path position opacity scale mx my ox oy = Inl e \<longrightarrow>
      apply_watermark world img path position opacity scale mx my ox oy = img)
   \<and> (apply_watermark world img path position opacity scale mx my ox oy = img
      \<or> apply_watermark_body world img path position opacity scale mx my ox oy
          = Inr (apply_watermark world img path position opacity scale mx my ox oy))"
  by (simp add: apply_watermark_def apply_watermark_body_def os_path_exists_def
      image_open_rgba_def split: sum.splits)

theorem apply_watermark_fail_soft_witness:
  "fs example_world ''/nonexistent/path.png'' = Missing
   \<and> apply_watermark example_world example_image ''/nonexistent/path.png'' ''bottom_right''
        (double (8 / 10)) (double (1 / 10)) 20 20 0 0 = example_image
   \<and> fs example_world ''broken.png'' = Unreadable
   \<and> apply_watermark example_world example_image ''broken.png'' ''bottom_right''
        (double (8 / 10)) (double (1 / 10)) 20 20 0 0 = example_image
   \<and> apply_watermark_body example_world example_image ''wm.png'' ''bottom_right''
        (double (8 / 10)) (double (1 / 10)) 20 20 0 0 = Inl ValueError
   \<and> apply_watermark example_world example_image ''wm.png'' ''bottom_right''
        (double (8 / 10)) (double (1 / 10)) 20 20 0 0 = example_image"
proof -
  have a: "fs example_world ''/nonexistent/path.png'' = Missing"
    and b: "fs example_world ''broken.png'' = Unreadable"
    by (simp_all add: example_world_def)
  from apply_watermark_fail_soft [of example_world "''/nonexistent/path.png''" example_image
        "''bottom_right''" "double (8 / 10)" "double (1 / 10)" 20 20 0 0] a
  have 1: "apply_watermark example_world example_image ''/nonexistent/path.png''
        ''bottom_right'' (double (8 / 10)) (double (1 / 10)) 20 20 0 0 = example_image"
    by blast
  from apply_watermark_fail_soft [of example_world "''broken.png''" example_image
        "''bottom_right''" "double (8 / 10)" "double (1 / 10)" 20 20 0 0] b
  have 2: "apply_watermark example_world example_image ''broken.png''
        ''bottom_right'' (double (8 / 10)) (double (1 / 10)) 20 20 0 0 = example_image"
    by blast
  from apply_watermark_fail_soft [of example_world "''wm.png''" example_image
        "''bottom_right''" "double (8 / 10)" "double (1 / 10)" 20 20 0 0] example_value_error
  have 3: "apply_watermark example_world example_image ''wm.png''
        ''bottom_right'' (double (8 / 10)) (double (1 / 10)) 20 20 0 0 = example_image"
    by blast
  show ?thesis
    by (intro conjI) (rule a, rule 1, rule b, rule 2, rule example_value_error, rule 3)
qed

text \<open>
  Claim C8. For every watermark and every opacity of the host's range: if the opacity is
  below 1, the opacity step raises no exception, keeps mode, size, red, green and blue,
  and each alpha value \<open>a\<close> becomes \<^verbatim>\<open>int(a * opacity)\<close>, the truncated product of
  doubles; with opacity 1 the watermark is left as it is; and with opacity 0 the result
  of \<^verbatim>\<open>apply_watermark\<close> on a normalized image of three or four channels has the shape
  of the first input image, each of its entries is the entry of the input or that entry
  scaled to a byte and back, and differs from it by less than \<open>1 / 255 + 1 / 2 ^ 23\<close>
  (the quantization step and the rounding of 32-bit floats).
\<close>

theorem opacity_scales_alpha:
  "(0 \<le> opacity \<and> opacity < 1 \<longrightarrow>
      (case apply_opacity opacity wm of
         Inl e \<Rightarrow> False
       | Inr wm' \<Rightarrow>
           mode wm' = mode wm \<and> width wm' = width wm \<and> height wm' = height wm
           \<and> (\<forall>x y. red (getpixel wm' x y) = red (getpixel wm x y)
                  \<and> green (getpixel wm' x y) = green (getpixel wm x y)
                  \<and> blue (getpixel wm' x y) = blue (getpixel wm x y)
                  \<and> int_of_product (uint (alpha (getpixel wm x y))) opacity
                      = Inr (uint (alpha (getpixel wm' x y))))))
   \<and> apply_opacity 1 wm = Inr wm
   \<and> (normalized img \<and> (channels img = 3 \<or> channels img = 4) \<longrightarrow>
        rows (apply_watermark world img path position 0 scale mx my ox oy) = rows img
      \<and> cols (apply_watermark world img path position 0 scale mx my ox oy) = cols img
      \<and> channels (apply_watermark world img path position 0 scale mx my ox oy) = channels img
      \<and> (\<forall>y < rows img. \<forall>x < cols img. \<forall>c < channels img.
            (item (apply_watermark world img path position 0 scale mx my ox oy) 0 y x c
               = item img 0 y x c
             \<or> item (apply_watermark world img path position 0 scale mx my ox oy) 0 y x c
               = quantized (item img 0 y x c))
          \<and> \<bar>item (apply_watermark world img path position 0 scale mx my ox oy) 0 y x c
               - item img 0 y x c\<bar> < 1 / 255 + 1 / 2 ^ 23))"
proof -
  have scaled: "0 \<le> opacity \<and> opacity < 1 \<longrightarrow>
      (case apply_opacity opacity wm of
         Inl e \<Rightarrow> False
       | Inr wm' \<Rightarrow>
           mode wm' = mode wm \<and> width wm' = width wm \<and> height wm' = height wm
           \<and> (\<forall>x y. red (getpixel wm' x y) = red (getpixel wm x y)
                  \<and> green (getpixel wm' x y) = green (getpixel wm x y)
                  \<and> blue (getpixel wm' x y) = blue (getpixel wm x y)
                  \<and> int_of_product (uint (alpha (getpixel wm x y))) opacity
                      = Inr (uint (alpha (getpixel wm' x y)))))"
  proof
    assume o: "0 \<le> opacity \<and> opacity < 1"
    then have o1: "0 \<le> opacity" and o2: "opacity < 1" by simp_all
    have "int_of_product (uint a) opacity
        = Inr (uint (clip8 (py_trunc (double (real_of_int (uint a) * opacity)))))" for a :: byte
    proof -
      have a: "0 \<le> uint a" "uint a \<le> 255" using uint_byte_bound [of a] by simp_all
      note p = int_of_product_byte [OF a o1 o2]
      show ?thesis by (simp only: p(1) clip8_id [OF p(2) p(3)])
    qed
    then show "case apply_opacity opacity wm of
         Inl e \<Rightarrow> False
       | Inr wm' \<Rightarrow>
           mode wm' = mode wm \<and> width wm' = width wm \<and> height wm' = height wm
           \<and> (\<forall>x y. red (getpixel wm' x y) = red (getpixel wm x y)
                  \<and> green (getpixel wm' x y) = green (getpixel wm x y)
                  \<and> blue (getpixel wm' x y) = blue (getpixel wm x y)
                  \<and> int_of_product (uint (alpha (getpixel wm x y))) opacity
                      = Inr (uint (alpha (getpixel wm' x y))))"
      unfolding apply_opacity_Inr [OF o1 o2] by simp
  qed
  have opaque: "apply_opacity 1 wm = Inr wm"
    by (simp add: apply_opacity_def)
  have transparent: "normalized img \<and> (channels img = 3 \<or> channels img = 4) \<longrightarrow>
        rows (apply_watermark world img path position 0 scale mx my ox oy) = rows img
      \<and> cols (apply_watermark world img path position 0 scale mx my ox oy) = cols img
      \<and> channels (apply_watermark world img path position 0 scale mx my ox oy) = channels img
      \<and> (\<forall>y < rows img. \<forall>x < cols img. \<forall>c < channels img.
            (item (apply_watermark world img path position 0 scale mx my ox oy) 0 y x c
               = item img 0 y x c
             \<or> item (apply_watermark world img path position 0 scale mx my ox oy) 0 y x c
               = quantized (item img 0 y x c))
          \<and> \<bar>item (apply_watermark world img path position 0 scale mx my ox oy) 0 y x c
               - item img 0 y x c\<bar> < 1 / 255 + 1 / 2 ^ 23)"
  proof
    assume h: "normalized img \<and> (channels img = 3 \<or> channels img = 4)"
    let ?out = "apply_watermark world img path position 0 scale mx my ox oy"
    have q: "\<bar>quantized (item img 0 y x c) - item img 0 y x c\<bar> < 1 / 255 + 1 / 2 ^ 23"
      if "y < rows img" "x < cols img" "c < channels img" for y x c
      using h that by (intro quantized_error) (simp_all add: normalized_def)
    from h opacity_zero_output [of img world path position scale mx my ox oy]
    consider (same) "?out = img"
      | (quant) "rows ?out = rows img" "cols ?out = cols img" "channels ?out = channels img"
          "\<forall>y < rows img. \<forall>x < cols img. \<forall>c < channels img.
              item ?out 0 y x c = quantized (item img 0 y x c)"
      by blast
    then show "rows ?out = rows img \<and> cols ?out = cols img \<and> channels ?out = channels img
      \<and> (\<forall>y < rows img. \<forall>x < cols img. \<forall>c < channels img.
            (item ?out 0 y x c = item img 0 y x c
             \<or> item ?out 0 y x c = quantized (item img 0 y x c))
          \<and> \<bar>item ?out 0 y x c - item img 0 y x c\<bar> < 1 / 255 + 1 / 2 ^ 23)"
    proof cases
      case same
      then show ?thesis by simp
    next
      case quant
      then show ?thesis using q by simp
    qed
  qed
  show ?thesis
    by (intro conjI) (rule scaled, rule opaque, rule transparent)
qed

theorem opacity_scales_alpha_witness:
  "0 \<le> double (8 / 10) \<and> double (8 / 10) < 1
   \<and> normalized example_image \<and> (channels example_image = 3 \<or> channels example_image = 4)
   \<and> alpha (getpixel example_watermark 0 0) = 255
   \<and> int_of_product 255 (double (8 / 10)) = Inr 204
   \<and> apply_opacity (double (8 / 10)) example_watermark
       = Inr \<lparr>mode = RGBA, width = 4, height = 2,
              getpixel = (\<lambda>x y. Pixel 200 100 50 (if x < 2 then 204 else 102))\<rparr>
   \<and> \<bar>item (apply_watermark example_world example_image ''wm.png'' ''center'' 0 1 0 0 0 0)
          0 2 2 0 - 1 / 2\<bar> < 1 / 255 + 1 / 2 ^ 23"
proof -
  have h: "0 \<le> double (8 / 10) \<and> double (8 / 10) < 1"
    using example_opacity_range by simp
  have px: "alpha (getpixel example_watermark 0 0) = 255"
    by (simp add: example_watermark_def)
  have k: "int_of_product 255 (double (8 / 10)) = Inr 204"
    by code_simp
  have c: "channels example_image = 3 \<or> channels example_image = 4"
    by (simp add: example_image_def)
  have i: "item example_image 0 2 2 0 = 1 / 2" "(2::nat) < rows example_image"
    "(2::nat) < cols example_image" "(0::nat) < channels example_image"
    by (simp_all add: example_image_def)
  note t = opacity_scales_alpha [of "double (8 / 10)" example_watermark example_image
      example_world "''wm.png''" "''center''" 1 0 0 0 0]
  from t example_normalized c i(2-4)
  have "\<bar>item (apply_watermark example_world example_image ''wm.png'' ''center'' 0 1 0 0 0 0)
          0 2 2 0 - item example_image 0 2 2 0\<bar> < 1 / 255 + 1 / 2 ^ 23"
    by blast
  then have d: "\<bar>item (apply_watermark example_world example_image ''wm.png'' ''center''
          0 1 0 0 0 0) 0 2 2 0 - 1 / 2\<bar> < 1 / 255 + 1 / 2 ^ 23"
    by (simp only: i(1))
  show ?thesis
    by (intro conjI) (rule h [THEN conjunct1], rule h [THEN conjunct2],
        rule example_normalized, rule c, rule px, rule k, rule example_opacity_applied, rule d)
qed

text \<open>
  Claim C9. For an input with three or four channels, on the success path (the watermark
  file decodes and no exception leaves the body) \<^verbatim>\<open>apply_watermark\<close> returns the
  tensor computed by the body: its batch size is 1, its channel count (and its height and
  width) are those of the input, its entries lie between 0 and 1, and it is computed from
  the first image of the batch alone: replacing the other images of the batch, or their
  number, does not change it.
\<close>

theorem apply_watermark_success_shape:
  assumes "channels img = 3 \<or> channels img = 4"
    and "fs world path = Readable wm"
    and "\<not> isl (apply_watermark_body world img path position opacity scale mx my ox oy)"
  shows "batch (apply_watermark world img path position opacity scale mx my ox oy) = 1
     \<and> channels (apply_watermark world img path position opacity scale mx my ox oy)
         = channels img
     \<and> rows (apply_watermark world img path position opacity scale mx my ox oy) = rows img
     \<and> cols (apply_watermark world img path position opacity scale mx my ox oy) = cols img
     \<and> (\<forall>b y x c.
           0 \<le> item (apply_watermark world img path position opacity scale mx my ox oy) b y x c
         \<and> item (apply_watermark world img path position opacity scale mx my ox oy) b y x c \<le> 1)
     \<and> (\<forall>n rest. 0 < n \<longrightarrow>
           apply_watermark world (rest_replaced img n rest) path position opacity scale
               mx my ox oy
             = apply_watermark world img path position opacity scale mx my ox oy)"
proof -
  let ?out = "apply_watermark world img path position opacity scale mx my ox oy"
  from assms(3) obtain out where
    ok: "apply_watermark_body world img path position opacity scale mx my ox oy = Inr out"
    by (cases "apply_watermark_body world img path position opacity scale mx my ox oy") simp_all
  then have o: "?out = out" by (simp add: apply_watermark_def)
  note sh = success_shape [OF assms(1,2) ok]
  have "apply_watermark world (rest_replaced img n rest) path position opacity scale
               mx my ox oy = ?out" if "0 < n" for n rest
    using body_first_only [OF _ that assms(2), of img rest position opacity scale mx my ox oy] sh
    by (simp add: apply_watermark_def ok)
  then show ?thesis using sh o by simp
qed

theorem apply_watermark_success_shape_witness:
  "(channels example_image = 3 \<or> channels example_image = 4)
   \<and> fs example_world ''wm.png'' = Readable example_watermark
   \<and> \<not> isl (apply_watermark_body example_world example_image ''wm.png'' ''center''
              (double (8 / 10)) 1 0 0 0 0)
   \<and> batch example_image = 2
   \<and> batch (apply_watermark example_world example_image ''wm.png'' ''center''
              (double (8 / 10)) 1 0 0 0 0) = 1
   \<and> channels (apply_watermark example_world example_image ''wm.png'' ''center''
              (double (8 / 10)) 1 0 0 0 0) = 3
   \<and> item (apply_watermark example_world example_image ''wm.png'' ''center''
              (double (8 / 10)) 1 0 0 0 0) 0 2 2 0 = float32 (148 / 255)"
proof -
  have c: "channels example_image = 3 \<or> channels example_image = 4"
    and ch: "channels example_image = 3" and b: "batch example_image = 2"
    by (simp_all add: example_image_def)
  have f: "fs example_world ''wm.png'' = Readable example_watermark"
    by (simp add: example_world_def)
  note t = apply_watermark_success_shape [OF c f example_success]
  have 1: "batch (apply_watermark example_world example_image ''wm.png'' ''center''
              (double (8 / 10)) 1 0 0 0 0) = 1"
    using t by blast
  have "channels (apply_watermark example_world example_image ''wm.png'' ''center''
              (double (8 / 10)) 1 0 0 0 0) = channels example_image"
    using t by blast
  then have 2: "channels (apply_watermark example_world example_image ''wm.png'' ''center''
              (double (8 / 10)) 1 0 0 0 0) = 3"
    by (simp only: ch)
  show ?thesis
    by (intro conjI) (rule c, rule f, rule example_success, rule b, rule 1, rule 2,
        rule example_pixels(2))
qed

end
